theory Spec2Isabelle
  imports Complex_Main "HOL-Library.Word"
begin

section \<open>The background animation of \<open>script.js\<close>\<close>

text \<open>
  JavaScript numbers are modelled as the reals: an arithmetic operation of the script is
  read as the exact operation, so rounding, overflow to infinity and NaN are outside the
  model, with two exceptions. The scroll speed is kept as a binary64 value: the two
  operations that write it are followed by the rounding of the number type
  (\<open>round64\<close>), since what the decay does to a small speed depends on it. And the mouse
  block of \<open>update\<close> is given a second time with its partial operations checked
  (\<open>mouse_interaction_checked\<close>), where a division by zero or the square root of a
  negative number is \<open>None\<close>. \<open>null\<close> is \<open>None\<close>; where the script uses a nullable
  value in arithmetic the coercion of \<open>null\<close> to \<open>0\<close> is written out (\<open>to_number\<close>).
  \<open>Math.random()\<close> reads the next value of a sequence of draws that is part of the
  state; \<open>Date.now()\<close> and the viewport size are inputs.
\<close>

subsection \<open>Configuration and palette (lines 11 to 30)\<close>

record config_t =
  particleCount :: nat
  baseSize :: real
  colorSpeed :: real
  moveSpeed :: real
  mouseRepelDist :: real
  mouseRepelForce :: real
  scrollForce :: real

definition config :: config_t where
  "config = \<lparr> particleCount = 12, baseSize = 400, colorSpeed = 2 / 1000,
      moveSpeed = 8 / 10, mouseRepelDist = 600, mouseRepelForce = 2 / 100,
      scrollForce = 5 / 100 \<rparr>"

definition colors :: "string list" where
  "colors = [''rgba(255, 153, 51, 0.8)'', ''rgba(255, 180, 100, 0.7)'',
      ''rgba(240, 240, 255, 0.8)'', ''rgba(19, 136, 8, 0.8)'',
      ''rgba(50, 200, 80, 0.7)'']"

subsection \<open>Environment: random draws, nullable numbers, array reads\<close>

type_synonym rng = "(nat \<Rightarrow> real) \<times> nat"

definition Math_random :: "rng \<Rightarrow> real \<times> rng" where
  "Math_random g = (fst g (snd g), (fst g, Suc (snd g)))"

definition to_number :: "real option \<Rightarrow> real" where
  "to_number v = (case v of None \<Rightarrow> 0 | Some r \<Rightarrow> r)"

text \<open>Reading an array outside its bounds gives \<open>undefined\<close>, here \<open>None\<close>.\<close>

definition js_index :: "'a list \<Rightarrow> int \<Rightarrow> 'a option" where
  "js_index xs i = (if 0 \<le> i \<and> i < int (length xs) then Some (xs ! nat i) else None)"

text \<open>
  \<open>Math.atan2(y, x)\<close> over the reals. At the origin the script only ever passes the
  difference of two equal finite numbers, which is \<open>+0\<close>, and \<open>atan2(+0, +0)\<close> is \<open>+0\<close>.
\<close>

definition Math_atan2 :: "real \<Rightarrow> real \<Rightarrow> real" where
  "Math_atan2 b a =
     (if 0 < a then arctan (b / a)
      else if a < 0 then (if 0 \<le> b then arctan (b / a) + pi else arctan (b / a) - pi)
      else if 0 < b then pi / 2
      else if b < 0 then - (pi / 2)
      else 0)"

subsection \<open>Binary64 rounding\<close>

text \<open>
  \<open>round64\<close> is the rounding of the number type, to the nearest binary64 value with ties
  to the even significand: the unit in the last place of \<open>x\<close> is \<open>2\<close> to the power
  \<open>ulp_exponent x\<close>, which is \<open>floor (log2 |x|) - 52\<close> and at least \<open>-1074\<close>, the value
  it has for the subnormal numbers. Overflow (a magnitude of \<open>2 ^ 1024\<close> or more) is not
  modelled. \<open>double_0_9\<close> is the value of the literal \<open>0.9\<close>, the binary64 number nearest
  to nine tenths.
\<close>

definition roundTiesToEven :: "real \<Rightarrow> int" where
  "roundTiesToEven x =
     (let n = \<lfloor>x\<rfloor>; d = x - of_int n
      in if d < 1 / 2 then n else if 1 / 2 < d then n + 1 else if even n then n else n + 1)"

definition ulp_exponent :: "real \<Rightarrow> int" where
  "ulp_exponent x = max (- 1074) (\<lfloor>log 2 \<bar>x\<bar>\<rfloor> - 52)"

definition round64 :: "real \<Rightarrow> real" where
  "round64 x =
     (if x = 0 then 0
      else of_int (roundTiesToEven (x / 2 powi ulp_exponent x)) * 2 powi ulp_exponent x)"

definition representable64 :: "real \<Rightarrow> bool" where
  "representable64 x = (round64 x = x)"

definition double_0_9 :: real where
  "double_0_9 = 8106479329266893 / 2 ^ 53"

subsection \<open>Shared state (lines 4 to 9)\<close>

record mouse_t =
  x :: "real option"
  y :: "real option"

record particle =
  x :: real
  y :: real
  vx :: real
  vy :: real
  targetSize :: real
  radius :: real
  color :: "string option"
  angle :: real
  spin :: real
  offsets :: "real list"

record globals =
  width :: real
  height :: real
  particles :: "particle list"
  mouse :: mouse_t
  scrollY :: real
  lastScrollY :: real
  scrollSpeed :: real
  random :: rng

subsection \<open>Particle.reset and the constructor (lines 39 to 57)\<close>

text \<open>\<open>Array(8).fill(0).map(() => Math.random() * 2 * Math.PI)\<close>: one draw per slot, in order.\<close>

fun fill_offsets :: "nat \<Rightarrow> rng \<Rightarrow> real list \<times> rng" where
  "fill_offsets 0 g = ([], g)"
| "fill_offsets (Suc n) g =
     (let (u, g1) = Math_random g; (rest, g2) = fill_offsets n g1
      in (u * 2 * pi # rest, g2))"

definition reset :: "real \<Rightarrow> real \<Rightarrow> rng \<Rightarrow> particle \<times> rng" where
  "reset w h g0 =
     (let (u1, g1) = Math_random g0;
          (u2, g2) = Math_random g1;
          (u3, g3) = Math_random g2;
          (u4, g4) = Math_random g3;
          (u5, g5) = Math_random g4;
          (u6, g6) = Math_random g5;
          (u7, g7) = Math_random g6;
          (u8, g8) = Math_random g7;
          (os, g9) = fill_offsets 8 g8;
          size = baseSize config + u5 * 200
      in (\<lparr> particle.x = u1 * w, particle.y = u2 * h,
            vx = (u3 - 1 / 2) * moveSpeed config,
            vy = (u4 - 1 / 2) * moveSpeed config,
            targetSize = size, radius = size,
            color = js_index colors \<lfloor>u6 * real (length colors)\<rfloor>,
            angle = u7 * pi * 2,
            spin = (u8 - 1 / 2) * (5 / 1000),
            offsets = os \<rparr>, g9))"

definition Particle :: "real \<Rightarrow> real \<Rightarrow> rng \<Rightarrow> particle \<times> rng" where
  "Particle w h g0 =
     (let (p, g1) = reset w h g0;
          (u1, g2) = Math_random g1;
          (u2, g3) = Math_random g2
      in (p\<lparr> particle.x := u1 * w, particle.y := u2 * h \<rparr>, g3))"

subsection \<open>Particle.update (lines 59 to 101)\<close>

definition scroll_interaction :: "globals \<Rightarrow> particle \<Rightarrow> particle" where
  "scroll_interaction s p = p\<lparr> vy := vy p + scrollSpeed s * scrollForce config \<rparr>"

definition basic_motion :: "particle \<Rightarrow> particle" where
  "basic_motion p =
     p\<lparr> particle.x := particle.x p + vx p,
        particle.y := particle.y p + (vy p),
        angle := angle p + spin p \<rparr>"

definition boundaries :: "globals \<Rightarrow> particle \<Rightarrow> particle" where
  "boundaries s p =
     (let buffer = radius p;
          p1 = (if particle.x p < - buffer then p\<lparr> particle.x := width s + buffer \<rparr> else p);
          p2 = (if particle.x p1 > width s + buffer then p1\<lparr> particle.x := - buffer \<rparr> else p1);
          p3 = (if particle.y p2 < - buffer then p2\<lparr> particle.y := height s + buffer \<rparr> else p2);
          p4 = (if particle.y p3 > height s + buffer then p3\<lparr> particle.y := - buffer \<rparr> else p3)
      in p4)"

definition mouse_distance :: "mouse_t \<Rightarrow> particle \<Rightarrow> real" where
  "mouse_distance m p =
     (let dx = to_number (mouse_t.x m) - particle.x p;
          dy = to_number (mouse_t.y m) - particle.y p
      in sqrt (dx * dx + dy * dy))"

text \<open>
  The locals \<open>distance\<close>, \<open>force\<close> and \<open>angle\<close> of the mouse block as functions of the
  pointer and the particle (\<open>mouse_distance\<close> above, and the two below); the lemma
  \<open>mouse_interaction_locals\<close> states \<open>mouse_interaction\<close> through them.
\<close>

definition repel_force :: "mouse_t \<Rightarrow> particle \<Rightarrow> real" where
  "repel_force m p = (mouseRepelDist config - mouse_distance m p) / mouseRepelDist config"

definition repel_angle :: "mouse_t \<Rightarrow> particle \<Rightarrow> real" where
  "repel_angle m p =
     Math_atan2 (to_number (mouse_t.y m) - particle.y p) (to_number (mouse_t.x m) - particle.x p)"

definition mouse_interaction :: "globals \<Rightarrow> particle \<Rightarrow> particle" where
  "mouse_interaction s p =
     (if mouse_t.x (mouse s) \<noteq> None then
        (let dx = to_number (mouse_t.x (mouse s)) - particle.x p;
             dy = to_number (mouse_t.y (mouse s)) - particle.y p;
             distance = sqrt (dx * dx + dy * dy)
         in if distance < mouseRepelDist config then
              (let force = (mouseRepelDist config - distance) / mouseRepelDist config;
                   theta = Math_atan2 dy dx
               in p\<lparr> vx := vx p - cos theta * force * mouseRepelForce config,
                     vy := vy p - sin theta * force * mouseRepelForce config \<rparr>)
            else p)
      else p)"

text \<open>
  The same block with its partial operations checked. \<open>None\<close> stands for a result that
  is not a finite number: a division by zero (an infinity, or NaN for \<open>0 / 0\<close>) and the
  square root of a negative number (NaN). \<open>Math.atan2\<close>, \<open>Math.cos\<close> and \<open>Math.sin\<close> are
  defined on all finite arguments.
\<close>

definition js_divide :: "real \<Rightarrow> real \<Rightarrow> real option" where
  "js_divide a b = (if b = 0 then None else Some (a / b))"

definition Math_sqrt :: "real \<Rightarrow> real option" where
  "Math_sqrt a = (if a < 0 then None else Some (sqrt a))"

definition mouse_interaction_checked :: "globals \<Rightarrow> particle \<Rightarrow> particle option" where
  "mouse_interaction_checked s p =
     (if mouse_t.x (mouse s) \<noteq> None then
        (let dx = to_number (mouse_t.x (mouse s)) - particle.x p;
             dy = to_number (mouse_t.y (mouse s)) - particle.y p
         in case Math_sqrt (dx * dx + dy * dy) of
              None \<Rightarrow> None
            | Some distance \<Rightarrow>
                if distance < mouseRepelDist config then
                  (case js_divide (mouseRepelDist config - distance) (mouseRepelDist config) of
                     None \<Rightarrow> None
                   | Some force \<Rightarrow>
                       (let theta = Math_atan2 dy dx
                        in Some (p\<lparr> vx := vx p - cos theta * force * mouseRepelForce config,
                                    vy := vy p - sin theta * force * mouseRepelForce config \<rparr>)))
                else Some p)
      else Some p)"

definition damping :: "particle \<Rightarrow> particle" where
  "damping p = p\<lparr> vx := vx p * (98 / 100), vy := vy p * (98 / 100) \<rparr>"

definition min_speed :: "particle \<Rightarrow> rng \<Rightarrow> particle \<times> rng" where
  "min_speed p g0 =
     (let (p1, g1) =
            (if \<bar>vx p\<bar> < 2 / 10
             then (let (u, g) = Math_random g0 in (p\<lparr> vx := vx p + (u - 1 / 2) * (1 / 10) \<rparr>, g))
             else (p, g0));
          (p2, g2) =
            (if \<bar>vy p1\<bar> < 2 / 10
             then (let (u, g) = Math_random g1 in (p1\<lparr> vy := vy p1 + (u - 1 / 2) * (1 / 10) \<rparr>, g))
             else (p1, g1))
      in (p2, g2))"

definition update :: "globals \<Rightarrow> particle \<Rightarrow> rng \<Rightarrow> particle \<times> rng" where
  "update s p g =
     min_speed (damping (mouse_interaction s (boundaries s (basic_motion (scroll_interaction s p))))) g"

subsection \<open>Particle.draw (lines 103 to 128)\<close>

text \<open>
  The drawing surface is write-only for the script, so drawing is the list of calls made on
  the 2D context. A coordinate is \<open>None\<close> when the script computes it from \<open>undefined\<close>
  (a read of \<open>offsets\<close> outside the array), which is NaN in JavaScript.
\<close>

datatype canvas_op =
    Save
  | Translate real real
  | Rotate real
  | BeginPath
  | MoveTo "real option" "real option"
  | LineTo "real option" "real option"
  | ClosePath
  | FillStyle "string option"
  | Fill
  | Restore
  | ClearRect real real real real

function draw_loop :: "particle \<Rightarrow> real \<Rightarrow> nat \<Rightarrow> canvas_op list" where
  "draw_loop p time i =
     (if i \<le> 10 then
        (let theta = (real i / 10) * pi * 2;
             noise = map_option
                       (\<lambda>off. sin (theta * 2 + time + off) * (1 / 10) + cos (theta * 3 - time) * (1 / 10))
                       (js_index (offsets p) (int (i mod 8)));
             r = map_option (\<lambda>n. radius p * (1 + n)) noise;
             px = map_option (\<lambda>r. r * cos theta) r;
             py = map_option (\<lambda>r. r * sin theta) r
         in (if i = 0 then MoveTo px py else LineTo px py) # draw_loop p time (i + 1))
      else [])"
  by pat_completeness auto
termination
  by (relation "measure (\<lambda>(p, time, i). 11 - i)") auto

declare draw_loop.simps [simp del]

definition draw :: "particle \<Rightarrow> real \<Rightarrow> canvas_op list" where
  "draw p now =
     [Save, Translate (particle.x p) (particle.y p), Rotate (angle p), BeginPath]
     @ draw_loop p (now * (1 / 1000)) 0
     @ [ClosePath, FillStyle (color p), Fill, Restore]"

subsection \<open>initParticles and resize (lines 32 to 36 and 131 to 136)\<close>

function initParticles_loop ::
  "real \<Rightarrow> real \<Rightarrow> nat \<Rightarrow> particle list \<Rightarrow> rng \<Rightarrow> particle list \<times> rng" where
  "initParticles_loop w h i ps g =
     (if i < particleCount config
      then (let (p, g1) = Particle w h g in initParticles_loop w h (i + 1) (ps @ [p]) g1)
      else (ps, g))"
  by pat_completeness auto
termination
  by (relation "measure (\<lambda>(w, h, i, ps, g). particleCount config - i)") auto

declare initParticles_loop.simps [simp del]

definition initParticles :: "globals \<Rightarrow> globals" where
  "initParticles s =
     (let (ps, g) = initParticles_loop (width s) (height s) 0 [] (random s)
      in s\<lparr> particles := ps, random := g \<rparr>)"

definition resize :: "real \<Rightarrow> real \<Rightarrow> globals \<Rightarrow> globals" where
  "resize innerWidth innerHeight s = initParticles (s\<lparr> width := innerWidth, height := innerHeight \<rparr>)"

subsection \<open>animate (lines 138 to 151)\<close>

fun update_all :: "globals \<Rightarrow> particle list \<Rightarrow> rng \<Rightarrow> particle list \<times> rng" where
  "update_all s [] g = ([], g)"
| "update_all s (p # ps) g =
     (let (p1, g1) = update s p g; (ps1, g2) = update_all s ps g1 in (p1 # ps1, g2))"

text \<open>\<open>clock k\<close> is what the \<open>k\<close>-th call of \<open>Date.now()\<close> in the frame returns.\<close>

fun draw_all :: "(nat \<Rightarrow> real) \<Rightarrow> nat \<Rightarrow> particle list \<Rightarrow> canvas_op list" where
  "draw_all clock k [] = []"
| "draw_all clock k (p # ps) = draw p (clock k) @ draw_all clock (Suc k) ps"

text \<open>
  One run of \<open>animate\<close>: the new state and the calls made on the canvas. The closing
  \<open>requestAnimationFrame(animate)\<close> schedules the next run, which is the next
  \<open>AnimationFrame\<close> event below.
\<close>

definition animate :: "(nat \<Rightarrow> real) \<Rightarrow> globals \<Rightarrow> globals \<times> canvas_op list" where
  "animate clock s =
     (let (ps, g) = update_all s (particles s) (random s);
          s1 = s\<lparr> particles := ps, random := g \<rparr>;
          ops = ClearRect 0 0 (width s1) (height s1) # draw_all clock 0 (particles s1)
      in (s1\<lparr> scrollSpeed := round64 (scrollSpeed s1 * double_0_9) \<rparr>, ops))"

subsection \<open>Event listeners (lines 153 to 171) and start-up (lines 195 to 197)\<close>

definition on_mousemove :: "real \<Rightarrow> real \<Rightarrow> globals \<Rightarrow> globals" where
  "on_mousemove clientX clientY s =
     s\<lparr> mouse := (mouse s)\<lparr> mouse_t.x := Some clientX, mouse_t.y := Some clientY \<rparr> \<rparr>"

definition on_mouseout :: "globals \<Rightarrow> globals" where
  "on_mouseout s = s\<lparr> mouse := (mouse s)\<lparr> mouse_t.x := None, mouse_t.y := None \<rparr> \<rparr>"

definition on_scroll :: "real \<Rightarrow> globals \<Rightarrow> globals" where
  "on_scroll windowScrollY s =
     (let s1 = s\<lparr> scrollY := windowScrollY \<rparr>;
          s2 = s1\<lparr> scrollSpeed := round64 (scrollY s1 - lastScrollY s1) \<rparr>
      in s2\<lparr> lastScrollY := scrollY s2 \<rparr>)"

datatype event =
    MouseMove real real
  | MouseOut
  | Resize real real
  | Scroll real
  | AnimationFrame "nat \<Rightarrow> real"

fun handle :: "event \<Rightarrow> globals \<Rightarrow> globals" where
  "handle (MouseMove cx cy) s = on_mousemove cx cy s"
| "handle MouseOut s = on_mouseout s"
| "handle (Resize w h) s = resize w h s"
| "handle (Scroll sy) s = on_scroll sy s"
| "handle (AnimationFrame clock) s = fst (animate clock s)"

fun is_resize :: "event \<Rightarrow> bool" where
  "is_resize (Resize w h) = True"
| "is_resize e = False"

text \<open>
  The state when the script has run to line 196: the declarations of lines 4 to 9 followed
  by the first \<open>resize()\<close>. \<open>width\<close> and \<open>height\<close> are declared without a value and
  are assigned by \<open>resize\<close> before anything reads them; the \<open>0\<close> below stands for that.
\<close>

definition init :: "real \<Rightarrow> real \<Rightarrow> real \<Rightarrow> (nat \<Rightarrow> real) \<Rightarrow> globals" where
  "init innerWidth innerHeight windowScrollY draws =
     resize innerWidth innerHeight
       \<lparr> width = 0, height = 0, particles = [],
         mouse = \<lparr> mouse_t.x = None, mouse_t.y = None \<rparr>,
         scrollY = windowScrollY, lastScrollY = windowScrollY, scrollSpeed = 0,
         random = (draws, 0) \<rparr>"

subsection \<open>Contact form (lines 174 to 193)\<close>

text \<open>
  A JavaScript string is a sequence of 16-bit code units. \<open>js\<close> reads a literal of the
  script. \<open>encodeURIComponent\<close> is the built-in of the language: a code unit of the
  unreserved set stays, any other code point is replaced by the escapes \<open>%XX\<close> of its UTF-8
  octets, and a surrogate without its partner throws \<open>URIError\<close>.
\<close>

type_synonym jsstring = "16 word list"

datatype js_error = TypeError | URIError

definition js :: "string \<Rightarrow> jsstring" where
  "js str = map (\<lambda>c. of_nat (of_char c)) str"

definition uriUnreserved :: "16 word \<Rightarrow> bool" where
  "uriUnreserved c =
     ((0x41 \<le> c \<and> c \<le> 0x5A) \<or> (0x61 \<le> c \<and> c \<le> 0x7A) \<or> (0x30 \<le> c \<and> c \<le> 0x39)
      \<or> c \<in> set (js ''-_.!~*'' @ [0x27] @ js ''()''))"

definition hex_digit :: "nat \<Rightarrow> 16 word" where
  "hex_digit n = (js ''0123456789ABCDEF'') ! (n mod 16)"

definition percent_octet :: "nat \<Rightarrow> jsstring" where
  "percent_octet b = [0x25, hex_digit (b div 16), hex_digit (b mod 16)]"

definition utf8_octets :: "nat \<Rightarrow> nat list" where
  "utf8_octets cp =
     (if cp < 0x80 then [cp]
      else if cp < 0x800 then [0xC0 + cp div 64, 0x80 + cp mod 64]
      else if cp < 0x10000 then [0xE0 + cp div 4096, 0x80 + (cp div 64) mod 64, 0x80 + cp mod 64]
      else [0xF0 + cp div 262144, 0x80 + (cp div 4096) mod 64, 0x80 + (cp div 64) mod 64,
            0x80 + cp mod 64])"

definition escape_code_point :: "nat \<Rightarrow> jsstring" where
  "escape_code_point cp = concat (map percent_octet (utf8_octets cp))"

definition is_leading_surrogate :: "16 word \<Rightarrow> bool" where
  "is_leading_surrogate c = (0xD800 \<le> c \<and> c \<le> 0xDBFF)"

definition is_trailing_surrogate :: "16 word \<Rightarrow> bool" where
  "is_trailing_surrogate c = (0xDC00 \<le> c \<and> c \<le> 0xDFFF)"

definition prepend :: "jsstring \<Rightarrow> js_error + jsstring \<Rightarrow> js_error + jsstring" where
  "prepend pre r = (case r of Inl e \<Rightarrow> Inl e | Inr rest \<Rightarrow> Inr (pre @ rest))"

fun encodeURIComponent :: "jsstring \<Rightarrow> js_error + jsstring" where
  "encodeURIComponent [] = Inr []"
| "encodeURIComponent [c] =
     (if uriUnreserved c then Inr [c]
      else if is_leading_surrogate c \<or> is_trailing_surrogate c then Inl URIError
      else Inr (escape_code_point (unat c)))"
| "encodeURIComponent (c # d # ds) =
     (if uriUnreserved c then prepend [c] (encodeURIComponent (d # ds))
      else if is_trailing_surrogate c then Inl URIError
      else if is_leading_surrogate c then
        (if is_trailing_surrogate d
         then prepend
                (escape_code_point ((unat c - 0xD800) * 0x400 + (unat d - 0xDC00) + 0x10000))
                (encodeURIComponent ds)
         else Inl URIError)
      else prepend (escape_code_point (unat c)) (encodeURIComponent (d # ds)))"

text \<open>
  The page as the listener sees it: \<open>document\<close> gives the \<open>value\<close> of the element with
  an id (\<open>None\<close> when \<open>getElementById\<close> returns \<open>null\<close>, and reading \<open>.value\<close> of it
  throws \<open>TypeError\<close>); \<open>defaultPrevented\<close> and \<open>href\<close> are what the listener writes.
\<close>

record page =
  defaultPrevented :: bool
  href :: jsstring

definition value_of :: "(string \<Rightarrow> jsstring option) \<Rightarrow> string \<Rightarrow> js_error + jsstring" where
  "value_of document ident = (case document ident of None \<Rightarrow> Inl TypeError | Some v \<Rightarrow> Inr v)"

definition bodyRaw :: "jsstring \<Rightarrow> jsstring \<Rightarrow> jsstring \<Rightarrow> jsstring" where
  "bodyRaw name email message =
     js ''Name: '' @ name @ [0x0A] @ js ''Email: '' @ email @ [0x0A, 0x0A] @ message"

definition on_submit :: "(string \<Rightarrow> jsstring option) \<Rightarrow> page \<Rightarrow> js_error option \<times> page" where
  "on_submit document pg0 =
     (let pg = pg0\<lparr> defaultPrevented := True \<rparr> in
      case value_of document ''name'' of Inl e \<Rightarrow> (Some e, pg) | Inr name \<Rightarrow>
     (case value_of document ''email'' of Inl e \<Rightarrow> (Some e, pg) | Inr email \<Rightarrow>
     (case value_of document ''subject'' of Inl e \<Rightarrow> (Some e, pg) | Inr subject \<Rightarrow>
     (case value_of document ''message'' of Inl e \<Rightarrow> (Some e, pg) | Inr message \<Rightarrow>
     (case encodeURIComponent subject of Inl e \<Rightarrow> (Some e, pg) | Inr esubject \<Rightarrow>
     (case encodeURIComponent (bodyRaw name email message) of Inl e \<Rightarrow> (Some e, pg) | Inr ebody \<Rightarrow>
        (None, pg\<lparr> href := js ''mailto:goodteachtech@gmail.com?subject='' @ esubject
                           @ js ''&body='' @ ebody \<rparr>)))))))"

text \<open>
  The vertex of the blob as the specification words it: the \<open>i\<close>-th sample angle is
  \<open>2 * pi * i / 10\<close>, and the sample radius is the particle radius times one plus two
  sinusoids of amplitude 0.1, one of twice the angle shifted by the time and the offset of
  slot \<open>i mod 8\<close>, one of three times the angle shifted back by the time.
\<close>

definition blob_vertex :: "real \<Rightarrow> real list \<Rightarrow> real \<Rightarrow> nat \<Rightarrow> real \<times> real" where
  "blob_vertex r offs time i =
     (let theta = 2 * pi * real i / 10;
          rad = r * (1 + (1 / 10) * sin (2 * theta + time + offs ! (i mod 8))
                       + (1 / 10) * cos (3 * theta - time))
      in (rad * cos theta, rad * sin theta))"

text \<open>
  The lines of a string, as \<open>split("\n")\<close> gives them, and the form of the example: the
  four fields with the values \<open>A\<close>, \<open>a@b.com\<close>, \<open>Hi\<close> and \<open>Hello\<close>.
\<close>

fun split_on :: "'a \<Rightarrow> 'a list \<Rightarrow> 'a list list" where
  "split_on c [] = [[]]"
| "split_on c (a # as) =
     (if a = c then [] # split_on c as
      else (case split_on c as of [] \<Rightarrow> [[a]] | l # ls \<Rightarrow> (a # l) # ls))"

definition sample_form :: "string \<Rightarrow> jsstring option" where
  "sample_form =
     [''name'' \<mapsto> js ''A'', ''email'' \<mapsto> js ''a@b.com'', ''subject'' \<mapsto> js ''Hi'',
      ''message'' \<mapsto> js ''Hello'']"

text \<open>\<open>n\<close> runs of \<open>animate\<close> in a row, with no other event between them.\<close>

fun frames :: "nat \<Rightarrow> (nat \<Rightarrow> real) \<Rightarrow> globals \<Rightarrow> globals" where
  "frames 0 clock s = s"
| "frames (Suc n) clock s = frames n clock (fst (animate clock s))"

subsection \<open>A sample state\<close>

definition sample_globals :: globals where
  "sample_globals =
     \<lparr> width = 800, height = 600, particles = [],
       mouse = \<lparr> mouse_t.x = Some 1000, mouse_t.y = Some 51 \<rparr>,
       scrollY = 0, lastScrollY = 0, scrollSpeed = 10, random = (\<lambda>k. 1 / 2, 0) \<rparr>"

definition sample_particle :: particle where
  "sample_particle =
     \<lparr> particle.x = 1299, particle.y = 50, vx = 2, vy = 1 / 2, targetSize = 500, radius = 500,
       color = Some ''rgba(255, 153, 51, 0.8)'', angle = 0, spin = 1 / 1000,
       offsets = [0, 1, 2, 3, 4, 5, 6, 7] \<rparr>"

section \<open>Properties\<close>

subsection \<open>What each step of update writes\<close>

lemma Math_random_simps [simp]:
  "fst (Math_random g) = fst g (snd g)"
  "snd (Math_random g) = (fst g, Suc (snd g))"
  by (simp_all add: Math_random_def)

lemma scroll_interaction_fields [simp]:
  "particle.x (scroll_interaction s p) = particle.x p"
  "particle.y (scroll_interaction s p) = particle.y p"
  "vx (scroll_interaction s p) = vx p"
  "vy (scroll_interaction s p) = vy p + scrollSpeed s * scrollForce config"
  "angle (scroll_interaction s p) = angle p"
  "targetSize (scroll_interaction s p) = targetSize p"
  "radius (scroll_interaction s p) = radius p"
  "color (scroll_interaction s p) = color p"
  "spin (scroll_interaction s p) = spin p"
  "offsets (scroll_interaction s p) = offsets p"
  by (simp_all add: scroll_interaction_def)

lemma basic_motion_fields [simp]:
  "particle.x (basic_motion p) = particle.x p + vx p"
  "particle.y (basic_motion p) = particle.y p + vy p"
  "vx (basic_motion p) = vx p"
  "vy (basic_motion p) = vy p"
  "angle (basic_motion p) = angle p + spin p"
  "targetSize (basic_motion p) = targetSize p"
  "radius (basic_motion p) = radius p"
  "color (basic_motion p) = color p"
  "spin (basic_motion p) = spin p"
  "offsets (basic_motion p) = offsets p"
  by (simp_all add: basic_motion_def)

lemma boundaries_fields [simp]:
  "vx (boundaries s p) = vx p"
  "vy (boundaries s p) = vy p"
  "angle (boundaries s p) = angle p"
  "targetSize (boundaries s p) = targetSize p"
  "radius (boundaries s p) = radius p"
  "color (boundaries s p) = color p"
  "spin (boundaries s p) = spin p"
  "offsets (boundaries s p) = offsets p"
  by (simp_all add: boundaries_def Let_def)

lemma mouse_interaction_fields [simp]:
  "particle.x (mouse_interaction s p) = particle.x p"
  "particle.y (mouse_interaction s p) = particle.y p"
  "angle (mouse_interaction s p) = angle p"
  "targetSize (mouse_interaction s p) = targetSize p"
  "radius (mouse_interaction s p) = radius p"
  "color (mouse_interaction s p) = color p"
  "spin (mouse_interaction s p) = spin p"
  "offsets (mouse_interaction s p) = offsets p"
  by (simp_all add: mouse_interaction_def Let_def)

lemma damping_fields [simp]:
  "particle.x (damping p) = particle.x p"
  "particle.y (damping p) = particle.y p"
  "vx (damping p) = vx p * (98 / 100)"
  "vy (damping p) = vy p * (98 / 100)"
  "angle (damping p) = angle p"
  "targetSize (damping p) = targetSize p"
  "radius (damping p) = radius p"
  "color (damping p) = color p"
  "spin (damping p) = spin p"
  "offsets (damping p) = offsets p"
  by (simp_all add: damping_def)

lemma min_speed_fields [simp]:
  "particle.x (fst (min_speed p g)) = particle.x p"
  "particle.y (fst (min_speed p g)) = particle.y p"
  "angle (fst (min_speed p g)) = angle p"
  "targetSize (fst (min_speed p g)) = targetSize p"
  "radius (fst (min_speed p g)) = radius p"
  "color (fst (min_speed p g)) = color p"
  "spin (fst (min_speed p g)) = spin p"
  "offsets (fst (min_speed p g)) = offsets p"
  by (simp_all add: min_speed_def Let_def split_def)

lemma mouse_interaction_locals:
  "mouse_interaction s p =
     (if mouse_t.x (mouse s) \<noteq> None \<and> mouse_distance (mouse s) p < mouseRepelDist config
      then p\<lparr> vx := vx p - cos (repel_angle (mouse s) p) * repel_force (mouse s) p * mouseRepelForce config,
              vy := vy p - sin (repel_angle (mouse s) p) * repel_force (mouse s) p * mouseRepelForce config \<rparr>
      else p)"
  by (simp add: mouse_interaction_def mouse_distance_def repel_force_def repel_angle_def Let_def)

lemma boundaries_x:
  "particle.x (boundaries s p) =
     (if particle.x p < - radius p then width s + radius p
      else if particle.x p > width s + radius p then - radius p else particle.x p)"
  by (simp add: boundaries_def Let_def)

lemma boundaries_y:
  "particle.y (boundaries s p) =
     (if particle.y p < - radius p then height s + radius p
      else if particle.y p > height s + radius p then - radius p else particle.y p)"
  by (simp add: boundaries_def Let_def)

lemma update_position:
  "particle.x (fst (update s p g)) = particle.x (boundaries s (basic_motion (scroll_interaction s p)))"
  "particle.y (fst (update s p g)) = particle.y (boundaries s (basic_motion (scroll_interaction s p)))"
  by (simp_all add: update_def)

subsection \<open>Wrapping at the viewport edges\<close>

text \<open>
  Claim C1. For a particle with a non-negative radius in a viewport of non-negative width
  and height, the position after the wrap step of \<open>update\<close> lies in
  \<open>[-radius, dimension + radius]\<close> on both axes: a coordinate that exceeds
  \<open>dimension + radius\<close> is reset to \<open>-radius\<close>, one that is below \<open>-radius\<close> is reset to
  \<open>dimension + radius\<close>, the buffer being the particle's own radius. The later steps of
  \<open>update\<close> leave the position as the wrap step made it. (The radius of a particle is
  at least 400 from its construction on, see \<open>resize_fields\<close> and \<open>update_all_keeps\<close>, and
  the viewport size is never negative.)
\<close>

theorem wrap_bounds:
  assumes "0 \<le> radius p" "0 \<le> width s" "0 \<le> height s"
  shows "let m = basic_motion (scroll_interaction s p);
             q = boundaries s m;
             r = radius p
         in - r \<le> particle.x q \<and> particle.x q \<le> width s + r
          \<and> - r \<le> particle.y q \<and> particle.y q \<le> height s + r
          \<and> (particle.x m > width s + r \<longrightarrow> particle.x q = - r)
          \<and> (particle.x m < - r \<longrightarrow> particle.x q = width s + r)
          \<and> (particle.y m > height s + r \<longrightarrow> particle.y q = - r)
          \<and> (particle.y m < - r \<longrightarrow> particle.y q = height s + r)
          \<and> radius q = r
          \<and> particle.x (fst (update s p g)) = particle.x q
          \<and> particle.y (fst (update s p g)) = particle.y q"
  unfolding Let_def update_position
  using assms by (simp add: boundaries_x boundaries_y)

theorem wrap_bounds_witness:
  "0 \<le> radius sample_particle \<and> 0 \<le> width sample_globals \<and> 0 \<le> height sample_globals
   \<and> particle.x (basic_motion (scroll_interaction sample_globals sample_particle)) = 1301
   \<and> particle.x (boundaries sample_globals (basic_motion (scroll_interaction sample_globals sample_particle))) = - 500
   \<and> particle.x (fst (update sample_globals sample_particle (random sample_globals))) = - 500
   \<and> particle.y (fst (update sample_globals sample_particle (random sample_globals))) = 51"
  using wrap_bounds [of sample_particle sample_globals "random sample_globals"]
  by (simp add: sample_particle_def sample_globals_def Let_def config_def boundaries_y)

subsection \<open>When the repel force applies\<close>

lemma on_mouseout_mouse:
  "mouse_t.x (mouse (on_mouseout s)) = None" "mouse_t.y (mouse (on_mouseout s)) = None"
  by (simp_all add: on_mouseout_def)

text \<open>
  Claim C3. The repel force is applied only when a pointer position is known and the
  particle's distance to it is strictly below 600. When the pointer is absent (\<open>mouse.x\<close>
  is \<open>null\<close>, which is what the \<open>mouseout\<close> listener writes) or the distance is at
  least 600, the mouse block of \<open>update\<close> leaves the particle as it is, and \<open>update\<close>
  is the remaining steps alone.
\<close>

theorem repel_only_in_range:
  "let q = boundaries s (basic_motion (scroll_interaction s p)) in
     (mouse_t.x (mouse s) = None \<or> mouseRepelDist config \<le> mouse_distance (mouse s) q
        \<longrightarrow> mouse_interaction s q = q
          \<and> update s p g = min_speed (damping q) g)
   \<and> (mouse_interaction s q \<noteq> q
        \<longrightarrow> mouse_t.x (mouse s) \<noteq> None \<and> mouse_distance (mouse s) q < mouseRepelDist config)
   \<and> mouseRepelDist config = 600
   \<and> mouse_t.x (mouse (on_mouseout s)) = None
   \<and> mouse_interaction (on_mouseout s) q = q"
  unfolding Let_def
  by (auto simp add: mouse_interaction_locals on_mouseout_mouse update_def config_def)

theorem repel_only_in_range_witness:
  "mouse_t.x (mouse (on_mouseout sample_globals)) = None
   \<and> update (on_mouseout sample_globals) sample_particle (\<lambda>k. 1 / 2, 0)
       = (sample_particle\<lparr> particle.x := - 500, particle.y := 51, angle := 1 / 1000,
                            vx := 196 / 100, vy := 98 / 100 \<rparr>, (\<lambda>k. 1 / 2, 0))"
  using repel_only_in_range [of "on_mouseout sample_globals" sample_particle "(\<lambda>k. 1 / 2, 0)"]
  by (simp add: on_mouseout_mouse Let_def boundaries_def min_speed_def damping_def sample_particle_def
      sample_globals_def on_mouseout_def config_def split_def basic_motion_def scroll_interaction_def)

subsection \<open>Damping and minimum speed\<close>

lemma min_speed_vx:
  "vx (fst (min_speed p g)) =
     (if \<bar>vx p\<bar> < 2 / 10 then vx p + (fst (Math_random g) - 1 / 2) * (1 / 10) else vx p)"
  by (simp add: min_speed_def Let_def split_def)

lemma min_speed_vy:
  "vy (fst (min_speed p g)) =
     (if \<bar>vy p\<bar> < 2 / 10
      then vy p + (fst (Math_random (if \<bar>vx p\<bar> < 2 / 10 then snd (Math_random g) else g)) - 1 / 2) * (1 / 10)
      else vy p)"
  by (simp add: min_speed_def Let_def split_def)

lemma nudge_bij: "bij_betw (\<lambda>u::real. (u - 1 / 2) * (1 / 10)) {0..<1} {- (5 / 100)..<5 / 100}"
proof (rule bij_betw_byWitness [where f' = "\<lambda>d. d * 10 + 1 / 2"])
  show "\<forall>a\<in>{0..<1}. (a - 1 / 2) * (1 / 10) * 10 + 1 / 2 = (a::real)" by (simp add: field_simps)
  show "\<forall>a'\<in>{- (5 / 100)..<5 / 100}. (a' * 10 + 1 / 2 - 1 / 2) * (1 / 10) = (a'::real)" by (simp add: field_simps)
  show "(\<lambda>u::real. (u - 1 / 2) * (1 / 10)) ` {0..<1} \<subseteq> {- (5 / 100)..<5 / 100}" by (auto simp: field_simps)
  show "(\<lambda>d::real. d * 10 + 1 / 2) ` {- (5 / 100)..<5 / 100} \<subseteq> {0..<1}" by (auto simp: field_simps)
qed

text \<open>
  Claim C6. In every \<open>update\<close>, after the repel step each velocity component is
  multiplied by 0.98, and then a component whose magnitude is below 0.2 gets a delta
  \<open>(u - 0.5) * 0.1\<close> added, \<open>u\<close> being the next draw of \<open>Math.random()\<close>; a component
  at or above the floor is left alone. For a draw in \<open>[0, 1)\<close> the delta is in
  \<open>[-0.05, 0.05)\<close>, and the delta is an affine bijection of the draw from \<open>[0, 1)\<close> onto
  \<open>[-0.05, 0.05)\<close>, so it is spread over that interval as the draw is over \<open>[0, 1)\<close>.
\<close>

theorem damping_then_nudge:
  "let q = mouse_interaction s (boundaries s (basic_motion (scroll_interaction s p)));
       d = damping q;
       u1 = fst (Math_random g);
       g1 = (if \<bar>vx d\<bar> < 2 / 10 then snd (Math_random g) else g);
       u2 = fst (Math_random g1);
       p' = fst (update s p g)
   in vx d = vx q * (98 / 100) \<and> vy d = vy q * (98 / 100)
    \<and> vx p' = (if \<bar>vx d\<bar> < 2 / 10 then vx d + (u1 - 1 / 2) * (1 / 10) else vx d)
    \<and> vy p' = (if \<bar>vy d\<bar> < 2 / 10 then vy d + (u2 - 1 / 2) * (1 / 10) else vy d)
    \<and> (0 \<le> u1 \<and> u1 < 1 \<longrightarrow> - (5 / 100) \<le> (u1 - 1 / 2) * (1 / 10) \<and> (u1 - 1 / 2) * (1 / 10) < 5 / 100)
    \<and> (0 \<le> u2 \<and> u2 < 1 \<longrightarrow> - (5 / 100) \<le> (u2 - 1 / 2) * (1 / 10) \<and> (u2 - 1 / 2) * (1 / 10) < 5 / 100)
    \<and> bij_betw (\<lambda>u::real. (u - 1 / 2) * (1 / 10)) {0..<1} {- (5 / 100)..<5 / 100}"
  unfolding Let_def update_def min_speed_vx min_speed_vy
  using nudge_bij by (simp del: Math_random_simps)


theorem damping_then_nudge_witness:
  "\<bar>vx (damping (sample_particle\<lparr> vx := 1 / 10 \<rparr>))\<bar> < 2 / 10
   \<and> vx (fst (update (on_mouseout sample_globals) (sample_particle\<lparr> vx := 1 / 10 \<rparr>) (\<lambda>k. 3 / 4, 0)))
       = 98 / 1000 + 25 / 1000
   \<and> vy (fst (update (on_mouseout sample_globals) (sample_particle\<lparr> vx := 1 / 10 \<rparr>) (\<lambda>k. 3 / 4, 0)))
       = 98 / 100
   \<and> - (5 / 100) \<le> (3 / 4 - 1 / 2) * (1 / 10 :: real) \<and> (3 / 4 - 1 / 2) * (1 / 10 :: real) < 5 / 100"
  using damping_then_nudge [of "on_mouseout sample_globals" "sample_particle\<lparr> vx := 1 / 10 \<rparr>" "(\<lambda>k. 3 / 4, 0)"]
  by (simp add: Let_def mouse_interaction_locals on_mouseout_def sample_globals_def sample_particle_def
      config_def)

subsection \<open>What update and the listeners leave alone\<close>

lemma update_all_length [simp]: "length (fst (update_all s ps g)) = length ps"
  by (induction ps arbitrary: g) (simp_all add: split_def Let_def)

lemma update_all_keeps:
  "map radius (fst (update_all s ps g)) = map radius ps"
  "map color (fst (update_all s ps g)) = map color ps"
  "map spin (fst (update_all s ps g)) = map spin ps"
  "map offsets (fst (update_all s ps g)) = map offsets ps"
  by (induction ps arbitrary: g) (simp_all add: split_def Let_def update_def)

lemma animate_particles: "particles (fst (animate clock s)) = fst (update_all s (particles s) (random s))"
  by (simp add: animate_def Let_def split_def)

lemma animate_scrollSpeed:
  "scrollSpeed (fst (animate clock s)) = round64 (scrollSpeed s * double_0_9)"
  by (simp add: animate_def Let_def split_def)

lemma handle_keeps:
  assumes "\<not> is_resize e"
  shows "map radius (particles (handle e s)) = map radius (particles s)"
    and "map color (particles (handle e s)) = map color (particles s)"
    and "map spin (particles (handle e s)) = map spin (particles s)"
    and "map offsets (particles (handle e s)) = map offsets (particles s)"
  using assms
  by (cases e; simp add: on_mousemove_def on_mouseout_def on_scroll_def Let_def
        animate_particles update_all_keeps)+

text \<open>
  Claim C9. \<open>update\<close> writes only the position (\<open>x\<close>, \<open>y\<close>), the velocity (\<open>vx\<close>,
  \<open>vy\<close>) and the rotation angle of a particle: the result is the particle with those
  five fields replaced, so the radius, the colour, the spin rate and the morph offsets are
  as before. No event other than a resize, which recreates the field, changes them for any
  particle of the field.
\<close>

theorem update_frame:
  "(let q = fst (update s p g) in
      q = p\<lparr> particle.x := particle.x q, particle.y := particle.y q, vx := vx q, vy := vy q,
             angle := angle q \<rparr>
      \<and> radius q = radius p \<and> color q = color p \<and> spin q = spin p \<and> offsets q = offsets p)
   \<and> (\<not> is_resize e \<longrightarrow>
        map radius (particles (handle e s)) = map radius (particles s)
      \<and> map color (particles (handle e s)) = map color (particles s)
      \<and> map spin (particles (handle e s)) = map spin (particles s)
      \<and> map offsets (particles (handle e s)) = map offsets (particles s))"
proof -
  have "fst (update s p g) =
     p\<lparr> particle.x := particle.x (fst (update s p g)), particle.y := particle.y (fst (update s p g)),
        vx := vx (fst (update s p g)), vy := vy (fst (update s p g)),
        angle := angle (fst (update s p g)) \<rparr>"
    by (rule particle.equality) (simp_all add: update_def)
  moreover have "radius (fst (update s p g)) = radius p" "color (fst (update s p g)) = color p"
    "spin (fst (update s p g)) = spin p" "offsets (fst (update s p g)) = offsets p"
    by (simp_all add: update_def)
  ultimately show ?thesis
    unfolding Let_def using handle_keeps [of e s] by blast
qed


theorem update_frame_witness:
  "\<not> is_resize (AnimationFrame (\<lambda>k. 0))
   \<and> map radius (particles (handle (AnimationFrame (\<lambda>k. 0))
         (sample_globals\<lparr> particles := [sample_particle, sample_particle\<lparr> radius := 450 \<rparr>] \<rparr>)))
       = [500, 450]
   \<and> map offsets (particles (handle (AnimationFrame (\<lambda>k. 0))
         (sample_globals\<lparr> particles := [sample_particle, sample_particle\<lparr> radius := 450 \<rparr>] \<rparr>)))
       = [[0, 1, 2, 3, 4, 5, 6, 7], [0, 1, 2, 3, 4, 5, 6, 7]]
   \<and> radius (fst (update
         (sample_globals\<lparr> particles := [sample_particle, sample_particle\<lparr> radius := 450 \<rparr>] \<rparr>)
         sample_particle (\<lambda>k. 1 / 2, 0))) = 500"
  using update_frame [of
      "sample_globals\<lparr> particles := [sample_particle, sample_particle\<lparr> radius := 450 \<rparr>] \<rparr>"
      sample_particle "(\<lambda>k. 1 / 2, 0)" "AnimationFrame (\<lambda>k. 0)"]
  by (simp add: Let_def sample_globals_def sample_particle_def)

subsection \<open>Properties of the rounding\<close>

lemma rte_le: "z \<le> of_int N \<Longrightarrow> roundTiesToEven z \<le> N"
  unfolding roundTiesToEven_def Let_def by (auto; linarith)

lemma rte_ge: "of_int N \<le> z \<Longrightarrow> N \<le> roundTiesToEven z"
  unfolding roundTiesToEven_def Let_def by (auto; linarith)

lemma rte_less: "z < of_int N - 1 / 2 \<Longrightarrow> roundTiesToEven z \<le> N - 1"
  unfolding roundTiesToEven_def Let_def by (auto; linarith)

lemma rte_greater: "of_int N + 1 / 2 < z \<Longrightarrow> N + 1 \<le> roundTiesToEven z"
  unfolding roundTiesToEven_def Let_def by (auto; linarith)

lemma rte_of_int [simp]: "roundTiesToEven (of_int n) = n"
  unfolding roundTiesToEven_def Let_def by simp

lemma ulp_exponent_mono:
  assumes "z \<noteq> 0" "\<bar>z\<bar> \<le> \<bar>w\<bar>"
  shows "ulp_exponent z \<le> ulp_exponent w"
proof -
  have "log 2 \<bar>z\<bar> \<le> log 2 \<bar>w\<bar>" using assms by simp
  then have "\<lfloor>log 2 \<bar>z\<bar>\<rfloor> \<le> \<lfloor>log 2 \<bar>w\<bar>\<rfloor>" by (rule floor_mono)
  then show ?thesis by (simp add: ulp_exponent_def)
qed

lemma ulp_exponent_eq:
  assumes "2 powi k \<le> \<bar>z\<bar>" "\<bar>z\<bar> < 2 powi (k + 1)"
  shows "ulp_exponent z = max (- 1074) (k - 52)"
proof -
  have pos: "0 < \<bar>z\<bar>" using assms(1) by (smt (verit) zero_less_power_int)
  have p: "2 powr (real_of_int k + 1) = 2 powi (k + 1)" "2 powr (real_of_int k) = 2 powi k"
    using powr_real_of_int' [of 2 "k + 1"] powr_real_of_int' [of 2 k] by simp_all
  have "\<lfloor>log 2 \<bar>z\<bar>\<rfloor> = k"
    using assms pos by (simp add: floor_log_eq_powr_iff p)
  then show ?thesis by (simp add: ulp_exponent_def)
qed


lemma ulp_exponent_small:
  assumes "z \<noteq> 0" "\<bar>z\<bar> < 2 powi (- 1021)"
  shows "ulp_exponent z = - 1074"
proof -
  have p: "2 powr (real_of_int (- 1021)) = 2 powi (- 1021)"
    using powr_real_of_int' [of 2 "- 1021"] by simp
  have a: "\<bar>z\<bar> < 2 powr real_of_int (- 1021)" using assms(2) by (simp only: p)
  have "log 2 \<bar>z\<bar> < real_of_int (- 1021)"
    using a assms(1) log_less_iff [of 2 "\<bar>z\<bar>" "real_of_int (- 1021)"] by simp
  then have "\<lfloor>log 2 \<bar>z\<bar>\<rfloor> < - 1021" by linarith
  then show ?thesis unfolding ulp_exponent_def by linarith
qed

lemma ulp_exponent_lower:
  assumes "z \<noteq> 0" "ulp_exponent z \<noteq> - 1074"
  shows "2 powi (ulp_exponent z + 52) \<le> \<bar>z\<bar>"
proof -
  let ?k = "\<lfloor>log 2 \<bar>z\<bar>\<rfloor>"
  have e: "ulp_exponent z = ?k - 52" using assms(2) by (simp add: ulp_exponent_def max_def split: if_splits)
  have "2 powr (real_of_int ?k) \<le> \<bar>z\<bar>"
    using assms(1) floor_log_eq_powr_iff [of "\<bar>z\<bar>" 2 ?k] by simp
  moreover have "2 powr (real_of_int ?k) = 2 powi ?k"
    using powr_real_of_int' [of 2 ?k] by simp
  ultimately show ?thesis by (simp add: e)
qed

lemma ulp_exponent_upper:
  assumes "z \<noteq> 0"
  shows "\<bar>z\<bar> < 2 powi (ulp_exponent z + 53)"
proof -
  let ?k = "\<lfloor>log 2 \<bar>z\<bar>\<rfloor>"
  have "\<bar>z\<bar> < 2 powr (real_of_int (?k + 1))"
    using assms floor_log_eq_powr_iff [of "\<bar>z\<bar>" 2 ?k] by simp
  moreover have "2 powr (real_of_int (?k + 1)) = 2 powi (?k + 1)"
    using powr_real_of_int' [of 2 "?k + 1"] by simp
  moreover have "(2::real) powi (?k + 1) \<le> 2 powi (ulp_exponent z + 53)"
    by (rule power_int_increasing) (simp_all add: ulp_exponent_def)
  ultimately show ?thesis by linarith
qed

lemma powi_split:
  assumes "e' \<le> e"
  shows "(2::real) powi e = of_int (2 ^ nat (e - e')) * 2 powi e'"
proof -
  have "(2::real) powi e = 2 powi (int (nat (e - e')) + e')" using assms by simp
  also have "\<dots> = 2 powi int (nat (e - e')) * 2 powi e'" by (subst power_int_add) simp_all
  also have "\<dots> = 2 ^ nat (e - e') * 2 powi e'" by (simp only: power_int_of_nat)
  also have "\<dots> = of_int (2 ^ nat (e - e')) * 2 powi e'" by (simp only: of_int_power of_int_numeral)
  finally show ?thesis .
qed

lemma round64_abs_le:
  assumes "representable64 s" "\<bar>w\<bar> \<le> \<bar>s\<bar>"
  shows "\<bar>round64 w\<bar> \<le> \<bar>s\<bar>"
proof (cases "w = 0")
  case True
  then show ?thesis by (simp add: round64_def)
next
  case False
  then have s0: "s \<noteq> 0" using assms(2) by auto
  let ?es = "ulp_exponent s" and ?ey = "ulp_exponent w"
  let ?u = "(2::real) powi ?ey"
  have u: "0 < ?u" by simp
  have le: "?ey \<le> ?es" using False assms(2) by (rule ulp_exponent_mono)
  define M where "M = roundTiesToEven (s / 2 powi ?es)"
  have s: "s = of_int M * 2 powi ?es"
    using assms(1) s0 by (simp add: representable64_def round64_def M_def)
  define N where "N = \<bar>M\<bar> * 2 ^ nat (?es - ?ey)"
  have sN: "\<bar>s\<bar> = of_int N * ?u"
    by (subst s, subst powi_split [OF le]) (simp add: N_def abs_mult)
  have t: "\<bar>w / ?u\<bar> \<le> of_int N"
    using assms(2) u unfolding sN by (simp add: field_simps)
  then have "- of_int N \<le> w / ?u" "w / ?u \<le> of_int N" by linarith+
  then have "- N \<le> roundTiesToEven (w / ?u)" "roundTiesToEven (w / ?u) \<le> N"
    using rte_ge [of "- N" "w / ?u"] rte_le [of "w / ?u" N] by simp_all
  then have "\<bar>real_of_int (roundTiesToEven (w / ?u))\<bar> \<le> of_int N" by linarith
  then have "\<bar>real_of_int (roundTiesToEven (w / ?u))\<bar> * ?u \<le> of_int N * ?u"
    using u by (simp add: mult_right_mono)
  then show ?thesis
    using False unfolding sN by (simp add: round64_def abs_mult)
qed

lemma round64_abs_less:
  assumes "representable64 s" "w \<noteq> 0" "\<bar>w\<bar> < \<bar>s\<bar> - 2 powi (ulp_exponent w) / 2"
  shows "\<bar>round64 w\<bar> < \<bar>s\<bar>"
proof -
  let ?es = "ulp_exponent s" and ?ey = "ulp_exponent w"
  let ?u = "(2::real) powi ?ey"
  have u: "0 < ?u" by simp
  have ys: "\<bar>w\<bar> \<le> \<bar>s\<bar>" using assms(3) u by linarith
  then have s0: "s \<noteq> 0" using assms(2) by auto
  have le: "?ey \<le> ?es" using assms(2) ys by (rule ulp_exponent_mono)
  define M where "M = roundTiesToEven (s / 2 powi ?es)"
  have s: "s = of_int M * 2 powi ?es"
    using assms(1) s0 by (simp add: representable64_def round64_def M_def)
  define N where "N = \<bar>M\<bar> * 2 ^ nat (?es - ?ey)"
  have sN: "\<bar>s\<bar> = of_int N * ?u"
    by (subst s, subst powi_split [OF le]) (simp add: N_def abs_mult)
  define q where "q = w / ?u"
  have "\<bar>w / ?u\<bar> < of_int N - 1 / 2"
    using assms(3) u unfolding sN by (simp add: field_simps)
  then have t: "\<bar>q\<bar> < of_int N - 1 / 2" by (simp only: q_def)
  have "of_int (- N) + 1 / 2 < q" "q < of_int N - 1 / 2" using t by simp_all
  then have "- N + 1 \<le> roundTiesToEven q" "roundTiesToEven q \<le> N - 1"
    using rte_greater [of "- N" q] rte_less [of q N] by simp_all
  then have "\<bar>real_of_int (roundTiesToEven q)\<bar> < of_int N" by linarith
  then have "\<bar>real_of_int (roundTiesToEven (w / ?u))\<bar> * ?u < of_int N * ?u"
    using u unfolding q_def by (simp add: mult_strict_right_mono)
  then show ?thesis
    using assms(2) unfolding sN by (simp add: round64_def abs_mult)
qed

lemma double_0_9_bounds: "0 < double_0_9" "double_0_9 < 1"
  by (simp_all add: double_0_9_def)

lemma decay_abs_le:
  assumes "representable64 s"
  shows "\<bar>round64 (s * double_0_9)\<bar> \<le> \<bar>s\<bar>"
proof (rule round64_abs_le [OF assms])
  have "\<bar>s * double_0_9\<bar> = \<bar>s\<bar> * double_0_9" using double_0_9_bounds by (simp add: abs_mult)
  also have "\<dots> \<le> \<bar>s\<bar> * 1" using double_0_9_bounds by (intro mult_left_mono) simp_all
  finally show "\<bar>s * double_0_9\<bar> \<le> \<bar>s\<bar>" by simp
qed

lemma decay_abs_less:
  assumes "representable64 s" "6 * 2 powi (- 1074) \<le> \<bar>s\<bar>"
  shows "\<bar>round64 (s * double_0_9)\<bar> < \<bar>s\<bar>"
proof (rule round64_abs_less [OF assms(1)])
  have s0: "s \<noteq> 0" using assms(2) by (smt (verit) zero_less_power_int)
  let ?w = "s * double_0_9"
  show y0: "?w \<noteq> 0" using s0 double_0_9_bounds by simp
  have ay: "\<bar>?w\<bar> = \<bar>s\<bar> * double_0_9" using double_0_9_bounds by (simp add: abs_mult)
  have "\<bar>?w\<bar> \<le> \<bar>s\<bar> * 1" unfolding ay using double_0_9_bounds by (intro mult_left_mono) simp_all
  then have "ulp_exponent ?w \<le> ulp_exponent s" using y0 by (intro ulp_exponent_mono) simp_all
  then have uy: "(2::real) powi ulp_exponent ?w \<le> 2 powi ulp_exponent s"
    by (intro power_int_increasing) simp_all
  have six: "6 * 2 powi ulp_exponent s \<le> \<bar>s\<bar>"
  proof (cases "ulp_exponent s = - 1074")
    case True
    then show ?thesis using assms(2) by simp
  next
    case False
    have "(2::real) powi (ulp_exponent s + 52) = 2 powi ulp_exponent s * 2 ^ 52"
      by (subst power_int_add) simp_all
    with ulp_exponent_lower [OF s0 False]
    have "2 powi ulp_exponent s * 2 ^ 52 \<le> \<bar>s\<bar>" by simp
    moreover have "6 * (2::real) powi ulp_exponent s \<le> 2 powi ulp_exponent s * 2 ^ 52"
      by simp
    ultimately show ?thesis by linarith
  qed
  have "2 powi ulp_exponent s / 2 < (6 * 2 powi ulp_exponent s) * (1 - double_0_9)"
    by (simp add: double_0_9_def field_simps)
  also have "\<dots> \<le> \<bar>s\<bar> * (1 - double_0_9)"
    using six double_0_9_bounds by (intro mult_right_mono) simp_all
  finally have "2 powi ulp_exponent s / 2 < \<bar>s\<bar> - \<bar>?w\<bar>" unfolding ay by (simp add: algebra_simps)
  with uy show "\<bar>?w\<bar> < \<bar>s\<bar> - 2 powi ulp_exponent ?w / 2" by linarith
qed

lemma ulp_exponent_ge: "- 1074 \<le> ulp_exponent z"
  by (simp add: ulp_exponent_def)

lemma round64_zero [simp]: "round64 0 = 0"
  by (simp add: round64_def)

lemma round64_int_multiple:
  assumes "r = of_int J * 2 powi ulp_exponent r"
  shows "round64 r = r"
proof (cases "r = 0")
  case True
  then show ?thesis by simp
next
  case False
  have "r / 2 powi ulp_exponent r = of_int J"
    by (subst assms) simp
  then show ?thesis using False assms by (simp add: round64_def)
qed

lemma round64_representable: "representable64 (round64 z)"
proof (cases "round64 z = 0")
  case True
  then show ?thesis by (simp add: representable64_def)
next
  case False
  then have x0: "z \<noteq> 0" by (auto simp: round64_def)
  let ?e = "ulp_exponent z"
  define q where "q = z / 2 powi ?e"
  define k where "k = roundTiesToEven (z / 2 powi ?e)"
  define r where "r = round64 z"
  have r: "r = of_int k * 2 powi ?e" using x0 by (simp add: r_def round64_def k_def)
  have r0: "r \<noteq> 0" using False by (simp add: r_def)
  let ?e' = "ulp_exponent r"
  have "\<bar>z\<bar> < 2 powi (?e + 53)" by (rule ulp_exponent_upper [OF x0])
  also have "\<dots> = 2 powi ?e * 2 ^ 53" by (subst power_int_add) simp_all
  finally have "\<bar>z\<bar> / 2 powi ?e < 2 ^ 53" by (simp add: field_simps)
  then have "\<bar>z / 2 powi ?e\<bar> < 2 ^ 53" by simp
  then have q: "\<bar>q\<bar> < 2 ^ 53" by (simp only: q_def)
  have q1: "q \<le> of_int (2 ^ 53)" and q2: "of_int (- (2 ^ 53)) \<le> q"
    using q by simp_all
  have "k \<le> 2 ^ 53" "- (2 ^ 53) \<le> k"
    unfolding k_def q_def [symmetric] by (rule rte_le [OF q1], rule rte_ge [OF q2])
  then have kb: "\<bar>k\<bar> \<le> 2 ^ 53" by linarith
  have "\<exists>J. r = of_int J * 2 powi ?e'"
  proof (cases "?e' \<le> ?e")
    case True
    have "r = of_int (k * 2 ^ nat (?e - ?e')) * 2 powi ?e'"
      by (subst r, subst powi_split [OF True]) simp
    then show ?thesis ..
  next
    case gt: False
    then have ne: "?e' \<noteq> - 1074" using ulp_exponent_ge [of z] by linarith
    have low: "2 powi (?e' + 52) \<le> \<bar>r\<bar>" by (rule ulp_exponent_lower [OF r0 ne])
    have ar: "\<bar>r\<bar> = of_int \<bar>k\<bar> * 2 powi ?e" by (simp add: r abs_mult)
    have "of_int \<bar>k\<bar> * (2::real) powi ?e \<le> of_int (2 ^ 53) * 2 powi ?e"
      using kb by (intro mult_right_mono) (simp_all only: of_int_le_iff, simp)
    also have "\<dots> = 2 powi (?e + 53)" by (subst power_int_add) simp_all
    finally have up: "\<bar>r\<bar> \<le> 2 powi (?e + 53)" unfolding ar .
    from low up have lu: "(2::real) powi (?e' + 52) \<le> 2 powi (?e + 53)" by linarith
    have "?e' + 52 \<le> ?e + 53"
    proof (rule ccontr)
      assume "\<not> ?e' + 52 \<le> ?e + 53"
      then have "?e + 53 < ?e' + 52" by simp
      then have "(2::real) powi (?e + 53) < 2 powi (?e' + 52)"
        by (rule power_int_strict_increasing) simp
      with lu show False by linarith
    qed
    with gt have e': "?e' = ?e + 1" by linarith
    from low have "(2::real) powi (?e + 53) \<le> of_int \<bar>k\<bar> * 2 powi ?e"
      unfolding ar e' by (simp add: add.commute)
    also have "(2::real) powi (?e + 53) = of_int (2 ^ 53) * 2 powi ?e"
      by (subst power_int_add) simp_all
    finally have "real_of_int (2 ^ 53) \<le> of_int \<bar>k\<bar>" by simp
    then have "2 ^ 53 \<le> \<bar>k\<bar>" by (simp only: of_int_le_iff)
    with kb have "\<bar>k\<bar> = 2 ^ 53" by linarith
    then obtain J where J: "k = 2 * J" by (cases "0 \<le> k") (auto intro: that [of "2 ^ 52"] that [of "- (2 ^ 52)"])
    have "(2::real) powi ?e' = 2 * 2 powi ?e" unfolding e' by (subst power_int_add) simp_all
    then have "r = of_int J * 2 powi ?e'" by (simp add: r J)
    then show ?thesis ..
  qed
  then obtain J where "r = of_int J * 2 powi ?e'" ..
  then have "round64 r = r" by (rule round64_int_multiple)
  then show ?thesis by (simp add: representable64_def r_def)
qed

lemma round64_binade:
  assumes "2 powi k \<le> \<bar>z\<bar>" "\<bar>z\<bar> < 2 powi (k + 1)"
  shows "round64 z = of_int (roundTiesToEven (z / 2 powi max (- 1074) (k - 52)))
                       * 2 powi max (- 1074) (k - 52)"
proof -
  have "z \<noteq> 0" using assms(1) by (smt (verit) zero_less_power_int)
  then show ?thesis by (simp add: round64_def ulp_exponent_eq [OF assms])
qed

lemma round64_subnormal:
  assumes "\<bar>z\<bar> < 2 powi (- 1021)"
  shows "round64 z = of_int (roundTiesToEven (z / 2 powi (- 1074))) * 2 powi (- 1074)"
proof (cases "z = 0")
  case True
  then show ?thesis by (simp add: roundTiesToEven_def)
next
  case False
  then show ?thesis by (simp only: round64_def ulp_exponent_small [OF False assms] if_False)
qed

lemma decay_fixed:
  assumes "k \<in> {1..5}"
  shows "round64 (of_int k * 2 powi (- 1074) * double_0_9) = of_int k * 2 powi (- 1074)"
proof -
  let ?w = "of_int k * 2 powi (- 1074) * double_0_9"
  have k: "1 \<le> k" "k \<le> 5" using assms by simp_all
  have "\<bar>?w\<bar> = of_int k * double_0_9 * 2 powi (- 1074)"
    using k double_0_9_bounds by (simp add: abs_mult)
  also have "\<dots> < 2 ^ 53 * 2 powi (- 1074)"
  proof (rule mult_strict_right_mono)
    have "real_of_int k * double_0_9 \<le> 5 * 1"
      using k double_0_9_bounds by (intro mult_mono) simp_all
    then show "real_of_int k * double_0_9 < 2 ^ 53" by simp
  qed simp
  also have "\<dots> = 2 powi (- 1021)"
    by (simp only: power_int_of_nat [symmetric] power_int_add [symmetric]) simp
  finally have small: "\<bar>?w\<bar> < 2 powi (- 1021)" .
  have q: "?w / 2 powi (- 1074) = of_int k * double_0_9" by simp
  from k have "k = 1 \<or> k = 2 \<or> k = 3 \<or> k = 4 \<or> k = 5" by linarith
  then have "roundTiesToEven (of_int k * double_0_9) = k"
    by (elim disjE) (simp_all add: roundTiesToEven_def double_0_9_def Let_def)
  then show ?thesis
    unfolding round64_subnormal [OF small] q by simp
qed

lemma round64_ten: "round64 (10 * double_0_9) = 9"
proof -
  have "round64 (10 * double_0_9)
      = of_int (roundTiesToEven (10 * double_0_9 / 2 powi max (- 1074) (3 - 52)))
          * 2 powi max (- 1074) (3 - 52)"
    by (rule round64_binade) (simp_all add: double_0_9_def)
  also have "\<dots> = 9"
    by (simp add: roundTiesToEven_def double_0_9_def Let_def)
  finally show ?thesis .
qed

lemma representable64_ten: "representable64 10"
proof -
  have "round64 10
      = of_int (roundTiesToEven (10 / 2 powi max (- 1074) (3 - 52)))
          * 2 powi max (- 1074) (3 - 52)"
    by (rule round64_binade) simp_all
  also have "\<dots> = 10"
    by (simp add: roundTiesToEven_def Let_def)
  finally show ?thesis by (simp add: representable64_def)
qed

lemma round64_error: "\<bar>round64 z - z\<bar> \<le> 2 powi ulp_exponent z / 2"
proof (cases "z = 0")
  case True
  then show ?thesis by simp
next
  case False
  let ?u = "(2::real) powi ulp_exponent z"
  define q where "q = z / ?u"
  have u: "0 < ?u" by simp
  have "\<bar>real_of_int (roundTiesToEven q) - q\<bar> \<le> 1 / 2"
    unfolding roundTiesToEven_def Let_def by (auto; linarith)
  then have "\<bar>real_of_int (roundTiesToEven q) - q\<bar> * ?u \<le> 1 / 2 * ?u"
    using u by (intro mult_right_mono) simp_all
  moreover have "round64 z - z = (real_of_int (roundTiesToEven q) - q) * ?u"
    using False by (simp add: round64_def q_def algebra_simps)
  ultimately show ?thesis by (simp add: abs_mult)
qed

lemma representable64_zero: "representable64 0"
  by (simp add: representable64_def)

lemma representable64_subnormal:
  assumes "\<bar>real_of_int k\<bar> < 2 ^ 53"
  shows "representable64 (of_int k * 2 powi (- 1074))"
proof -
  have "\<bar>of_int k * (2::real) powi (- 1074)\<bar> = \<bar>of_int k\<bar> * 2 powi (- 1074)"
    by (simp add: abs_mult)
  also have "\<dots> < 2 ^ 53 * 2 powi (- 1074)"
    using assms by (intro mult_strict_right_mono) simp_all
  also have "\<dots> = 2 powi (- 1021)"
    by (simp only: power_int_of_nat [symmetric] power_int_add [symmetric]) simp
  finally have small: "\<bar>of_int k * (2::real) powi (- 1074)\<bar> < 2 powi (- 1021)" .
  have "of_int k * (2::real) powi (- 1074) / 2 powi (- 1074) = of_int k" by simp
  then show ?thesis
    unfolding representable64_def round64_subnormal [OF small] by (simp only: rte_of_int)
qed

lemma double_0_9_nearest: "\<bar>double_0_9 - 9 / 10\<bar> \<le> 1 / 2 ^ 54"
  by (simp add: double_0_9_def)

subsection \<open>Decay of the scroll speed\<close>

lemma resize_scrollSpeed: "scrollSpeed (resize w h s) = scrollSpeed s"
  by (simp add: resize_def initParticles_def split_def Let_def)

lemma init_scrollSpeed: "scrollSpeed (init w h sy draws) = 0"
  by (simp add: init_def resize_scrollSpeed)

lemma frames_scrollSpeed:
  assumes "representable64 (scrollSpeed s)"
  shows "representable64 (scrollSpeed (frames n clock s))
       \<and> \<bar>scrollSpeed (frames n clock s)\<bar> \<le> \<bar>scrollSpeed s\<bar>"
  using assms
proof (induction n arbitrary: s)
  case 0
  then show ?case by simp
next
  case (Suc n)
  let ?s1 = "fst (animate clock s)"
  have r: "representable64 (scrollSpeed ?s1)"
    by (simp add: animate_scrollSpeed round64_representable)
  have "\<bar>scrollSpeed ?s1\<bar> \<le> \<bar>scrollSpeed s\<bar>"
    by (simp add: animate_scrollSpeed decay_abs_le [OF Suc.prems])
  with Suc.IH [OF r] show ?case by simp
qed

lemma handle_representable:
  "representable64 (scrollSpeed s) \<Longrightarrow> representable64 (scrollSpeed (handle e s))"
  by (cases e)
    (simp_all add: on_mousemove_def on_mouseout_def on_scroll_def Let_def resize_scrollSpeed
      animate_scrollSpeed round64_representable)

lemma reachable_representable:
  "representable64 (scrollSpeed (fold handle es (init w h sy draws)))"
proof -
  have "representable64 (scrollSpeed s) \<Longrightarrow> representable64 (scrollSpeed (fold handle es s))" for s
    by (induction es arbitrary: s) (simp_all add: handle_representable)
  then show ?thesis by (simp add: init_scrollSpeed representable64_zero)
qed

text \<open>
  Claim C4, as stated: absent new scroll events, each animation frame multiplies the scroll
  speed by 0.9, so its magnitude strictly decreases. This fails where the scroll speed is
  zero, which is its value when the script starts: the product is zero again and the
  magnitude does not decrease.
\<close>

theorem scroll_decay_counterexample:
  "\<not> \<bar>scrollSpeed (fst (animate (\<lambda>k. 0) (init 800 600 0 (\<lambda>k. 1 / 2))))\<bar>
       < \<bar>scrollSpeed (init 800 600 0 (\<lambda>k. 1 / 2))\<bar>"
  by (simp add: animate_scrollSpeed init_scrollSpeed)

text \<open>
  Claim C4, amended. Each run of \<open>animate\<close> replaces the scroll speed, a binary64 value,
  by the binary64 product of it and the literal \<open>0.9\<close>: the product with the binary64
  number nearest to nine tenths, rounded to nearest (an error of at most half a unit in the
  last place). The magnitude of the speed never increases, and it strictly decreases as
  long as it is at least \<open>6 * 2 ^ -1074\<close>. A speed of zero stays zero, and the subnormal
  values \<open>k * 2 ^ -1074\<close> with \<open>k\<close> from 1 to 5 stay as they are too, so the speed need not
  reach zero. Over any number of runs with no scroll event between them the speed stays a
  binary64 value of a magnitude that is at most the initial one. (The scroll speed is a
  binary64 value in every state the script reaches, see \<open>reachable_representable\<close>.)
\<close>

theorem scroll_decay:
  assumes "representable64 (scrollSpeed s)"
  shows "let v = scrollSpeed s; v' = scrollSpeed (fst (animate clock s)) in
           v' = round64 (v * double_0_9)
         \<and> \<bar>double_0_9 - 9 / 10\<bar> \<le> 1 / 2 ^ 54
         \<and> \<bar>v' - v * double_0_9\<bar> \<le> 2 powi ulp_exponent (v * double_0_9) / 2
         \<and> representable64 v'
         \<and> \<bar>v'\<bar> \<le> \<bar>v\<bar>
         \<and> (6 * 2 powi (- 1074) \<le> \<bar>v\<bar> \<longrightarrow> \<bar>v'\<bar> < \<bar>v\<bar>)
         \<and> (v = 0 \<longrightarrow> v' = 0)
         \<and> (\<forall>k \<in> {1..5}. v = of_int k * 2 powi (- 1074) \<longrightarrow> v' = v)
         \<and> representable64 (scrollSpeed (frames n clock s))
         \<and> \<bar>scrollSpeed (frames n clock s)\<bar> \<le> \<bar>v\<bar>"
proof -
  let ?v = "scrollSpeed s"
  have 1: "scrollSpeed (fst (animate clock s)) = round64 (?v * double_0_9)"
    by (rule animate_scrollSpeed)
  have 2: "\<bar>round64 (?v * double_0_9) - ?v * double_0_9\<bar>
      \<le> 2 powi ulp_exponent (?v * double_0_9) / 2"
    by (rule round64_error)
  have 3: "representable64 (round64 (?v * double_0_9))" by (rule round64_representable)
  have 4: "\<bar>round64 (?v * double_0_9)\<bar> \<le> \<bar>?v\<bar>" by (rule decay_abs_le [OF assms])
  have 5: "6 * 2 powi (- 1074) \<le> \<bar>?v\<bar> \<longrightarrow> \<bar>round64 (?v * double_0_9)\<bar> < \<bar>?v\<bar>"
    using decay_abs_less [OF assms] by blast
  have 6: "?v = 0 \<longrightarrow> round64 (?v * double_0_9) = 0" by simp
  have 7: "\<forall>k \<in> {1..5}. ?v = of_int k * 2 powi (- 1074) \<longrightarrow> round64 (?v * double_0_9) = ?v"
    using decay_fixed by metis
  show ?thesis
    unfolding Let_def 1
    using 2 3 4 5 6 7 double_0_9_nearest frames_scrollSpeed [OF assms, of n clock] by blast
qed

theorem scroll_decay_witness:
  "representable64 (scrollSpeed sample_globals)
   \<and> 6 * 2 powi (- 1074) \<le> \<bar>scrollSpeed sample_globals\<bar>
   \<and> scrollSpeed (fst (animate (\<lambda>k. 0) sample_globals)) = 9
   \<and> \<bar>scrollSpeed (fst (animate (\<lambda>k. 0) sample_globals))\<bar> < \<bar>scrollSpeed sample_globals\<bar>
   \<and> representable64 (scrollSpeed (sample_globals\<lparr> scrollSpeed := of_int 5 * 2 powi (- 1074) \<rparr>))
   \<and> (5::int) \<in> {1..5}
   \<and> scrollSpeed (fst (animate (\<lambda>k. 0) (sample_globals\<lparr> scrollSpeed := of_int 5 * 2 powi (- 1074) \<rparr>)))
       = of_int 5 * 2 powi (- 1074)"
proof -
  have v: "scrollSpeed sample_globals = 10" by (simp add: sample_globals_def)
  have r10: "representable64 (scrollSpeed sample_globals)"
    unfolding v by (rule representable64_ten)
  have big: "6 * 2 powi (- 1074) \<le> \<bar>scrollSpeed sample_globals\<bar>"
    unfolding v by simp
  have r5: "representable64 (scrollSpeed (sample_globals\<lparr> scrollSpeed := of_int 5 * 2 powi (- 1074) \<rparr>))"
    using representable64_subnormal [of 5] by simp
  have nine: "scrollSpeed (fst (animate (\<lambda>k. 0) sample_globals)) = 9"
    using scroll_decay [OF r10, of "\<lambda>k. 0" 0] unfolding Let_def v by (simp add: round64_ten)
  have less: "\<bar>scrollSpeed (fst (animate (\<lambda>k. 0) sample_globals))\<bar> < \<bar>scrollSpeed sample_globals\<bar>"
    unfolding nine v by simp
  have mem: "(5::int) \<in> {1..5}" by simp
  have sv: "scrollSpeed (sample_globals\<lparr> scrollSpeed := of_int 5 * 2 powi (- 1074) \<rparr>)
      = of_int 5 * 2 powi (- 1074)"
    by simp
  have stuck: "scrollSpeed (fst (animate (\<lambda>k. 0) (sample_globals\<lparr> scrollSpeed := of_int 5 * 2 powi (- 1074) \<rparr>)))
       = of_int 5 * 2 powi (- 1074)"
    using scroll_decay [OF r5, of "\<lambda>k. 0" 0] mem unfolding Let_def sv by blast
  from r10 big nine less r5 mem stuck show ?thesis by blast
qed

subsection \<open>The particle field after a resize\<close>

lemma fill_offsets_rng: "snd (fill_offsets n g) = (fst g, snd g + n)"
  by (induction n arbitrary: g) (simp_all add: split_def Let_def)

lemma fill_offsets_length: "length (fst (fill_offsets n g)) = n"
  by (induction n arbitrary: g) (simp_all add: split_def Let_def)

lemma reset_rng: "snd (reset w h g) = (fst g, snd g + 16)"
  by (simp add: reset_def split_def Let_def fill_offsets_rng)

lemma Particle_rng: "snd (Particle w h g) = (fst g, snd g + 18)"
  by (simp add: Particle_def split_def Let_def reset_rng)

lemma initParticles_loop_eq:
  "initParticles_loop w h i ps g =
     (ps @ map (\<lambda>k. fst (Particle w h (fst g, snd g + 18 * k))) [0..<particleCount config - i],
      (fst g, snd g + 18 * (particleCount config - i)))"
proof (induction w h i ps g rule: initParticles_loop.induct)
  case (1 w h i ps g)
  show ?case
  proof (cases "i < particleCount config")
    case True
    then obtain m where m: "particleCount config - i = Suc m" "particleCount config - Suc i = m"
      by (metis Suc_diff_Suc diff_Suc_Suc)
    have step: "initParticles_loop w h i ps g
        = initParticles_loop w h (i + 1) (ps @ [fst (Particle w h g)]) (snd (Particle w h g))"
      using True by (subst initParticles_loop.simps) (simp add: split_def Let_def)
    have up: "[0..<Suc m] = 0 # map Suc [0..<m]"
      by (simp add: upt_conv_Cons map_Suc_upt del: upt_Suc)
    have IH: "initParticles_loop w h (i + 1) (ps @ [fst (Particle w h g)]) (snd (Particle w h g))
        = ((ps @ [fst (Particle w h g)])
             @ map (\<lambda>k. fst (Particle w h (fst g, snd g + 18 + 18 * k))) [0..<m],
           (fst g, snd g + 18 + 18 * m))"
      using "1.IH" [OF True refl prod.collapse]
      by (simp add: m Particle_rng)
    show ?thesis
      unfolding step IH
      by (simp add: m up Particle_rng comp_def add.assoc del: upt_Suc)
  next
    case False
    then show ?thesis by (subst initParticles_loop.simps) simp
  qed
qed


lemma resize_particles:
  "particles (resize w h s) =
     map (\<lambda>k. fst (Particle w h (fst (random s), snd (random s) + 18 * k))) [0..<particleCount config]"
  by (simp add: resize_def initParticles_def initParticles_loop_eq)

lemma handle_length:
  "\<not> is_resize e \<Longrightarrow> length (particles (handle e s)) = length (particles s)"
  by (cases e) (simp_all add: on_mousemove_def on_mouseout_def on_scroll_def Let_def animate_particles)

lemma handle_all_length:
  "\<forall>e \<in> set es. \<not> is_resize e \<Longrightarrow> length (particles (fold handle es s)) = length (particles s)"
  by (induction es arbitrary: s) (simp_all add: handle_length)

lemma fill_offsets_draws:
  "fst (fill_offsets n g) = map (\<lambda>j. fst g (snd g + j) * 2 * pi) [0..<n]"
proof (induction n arbitrary: g)
  case 0
  then show ?case by simp
next
  case (Suc n)
  have up: "[0..<Suc n] = 0 # map Suc [0..<n]"
    by (simp add: upt_conv_Cons map_Suc_upt del: upt_Suc)
  show ?case
    unfolding up by (simp add: split_def Let_def Suc.IH comp_def del: upt_Suc)
qed

lemma Particle_draws:
  "fst (Particle w h g) =
     (let d = (\<lambda>j. fst g (snd g + j)) in
      \<lparr> particle.x = d 16 * w, particle.y = d 17 * h,
        vx = (d 2 - 1 / 2) * (8 / 10), vy = (d 3 - 1 / 2) * (8 / 10),
        targetSize = 400 + d 4 * 200, radius = 400 + d 4 * 200,
        color = js_index colors \<lfloor>d 5 * 5\<rfloor>,
        angle = d 6 * pi * 2, spin = (d 7 - 1 / 2) * (5 / 1000),
        offsets = map (\<lambda>j. d (8 + j) * 2 * pi) [0..<8] \<rparr>)"
proof -
  have len: "real (length colors) = 5" by (simp add: colors_def)
  show ?thesis
    by (simp add: Particle_def reset_def split_def Let_def fill_offsets_draws fill_offsets_rng
        config_def len eval_nat_numeral)
qed


lemma initParticles_loop_rng:
  "snd (initParticles_loop w h 0 [] g) = (fst g, snd g + 18 * particleCount config)"
  by (simp add: initParticles_loop_eq)

lemma resize_globals:
  "random (resize w h s) = (fst (random s), snd (random s) + 18 * particleCount config)"
  "width (resize w h s) = w" "height (resize w h s) = h"
  by (simp_all add: resize_def initParticles_def split_def Let_def initParticles_loop_rng)

text \<open>
  Claim C5. Every viewport resize replaces the particle field by exactly \<open>particleCount\<close>
  (12) particles, all freshly randomized: particle \<open>k\<close> is built by the constructor from
  the 18 draws of \<open>Math.random()\<close> numbered \<open>18 * k\<close> to \<open>18 * k + 17\<close> after the current
  one and from nothing of the old field, every field that \<open>reset\<close> randomizes being
  computed from its own draw (position from draws 16 and 17, velocity from 2 and 3, size
  from 4, colour from 5, angle from 6, spin from 7, the offsets from 8 to 15), and the
  generator is left 216 draws further on, so that the next resize reads later draws. The
  number of particles stays 12 through any sequence of events that has no resize in it.
\<close>

theorem resize_particle_count:
  "length (particles (resize w h s)) = particleCount config
   \<and> particleCount config = 12
   \<and> particles (resize w h s)
       = map (\<lambda>k. fst (Particle w h (fst (random s), snd (random s) + 18 * k))) [0..<12]
   \<and> (\<forall>k < 12. particles (resize w h s) ! k =
         (let d = (\<lambda>j. fst (random s) (snd (random s) + 18 * k + j)) in
          \<lparr> particle.x = d 16 * w, particle.y = d 17 * h,
            vx = (d 2 - 1 / 2) * (8 / 10), vy = (d 3 - 1 / 2) * (8 / 10),
            targetSize = 400 + d 4 * 200, radius = 400 + d 4 * 200,
            color = js_index colors \<lfloor>d 5 * 5\<rfloor>,
            angle = d 6 * pi * 2, spin = (d 7 - 1 / 2) * (5 / 1000),
            offsets = map (\<lambda>j. d (8 + j) * 2 * pi) [0..<8] \<rparr>))
   \<and> random (resize w h s) = (fst (random s), snd (random s) + 216)
   \<and> width (resize w h s) = w \<and> height (resize w h s) = h
   \<and> ((\<forall>e \<in> set es. \<not> is_resize e)
        \<longrightarrow> length (particles (fold handle es (resize w h s))) = 12)"
proof -
  have n: "particleCount config = 12" by (simp add: config_def)
  have ps: "particles (resize w h s)
       = map (\<lambda>k. fst (Particle w h (fst (random s), snd (random s) + 18 * k))) [0..<12]"
    by (simp only: resize_particles n)
  have each: "\<forall>k < 12. particles (resize w h s) ! k =
         (let d = (\<lambda>j. fst (random s) (snd (random s) + 18 * k + j)) in
          \<lparr> particle.x = d 16 * w, particle.y = d 17 * h,
            vx = (d 2 - 1 / 2) * (8 / 10), vy = (d 3 - 1 / 2) * (8 / 10),
            targetSize = 400 + d 4 * 200, radius = 400 + d 4 * 200,
            color = js_index colors \<lfloor>d 5 * 5\<rfloor>,
            angle = d 6 * pi * 2, spin = (d 7 - 1 / 2) * (5 / 1000),
            offsets = map (\<lambda>j. d (8 + j) * 2 * pi) [0..<8] \<rparr>)"
  proof (intro allI impI)
    fix k :: nat
    assume k: "k < 12"
    have "particles (resize w h s) ! k
        = fst (Particle w h (fst (random s), snd (random s) + 18 * k))"
      unfolding ps by (subst nth_map_upt) (use k in simp_all)
    then show "particles (resize w h s) ! k =
         (let d = (\<lambda>j. fst (random s) (snd (random s) + 18 * k + j)) in
          \<lparr> particle.x = d 16 * w, particle.y = d 17 * h,
            vx = (d 2 - 1 / 2) * (8 / 10), vy = (d 3 - 1 / 2) * (8 / 10),
            targetSize = 400 + d 4 * 200, radius = 400 + d 4 * 200,
            color = js_index colors \<lfloor>d 5 * 5\<rfloor>,
            angle = d 6 * pi * 2, spin = (d 7 - 1 / 2) * (5 / 1000),
            offsets = map (\<lambda>j. d (8 + j) * 2 * pi) [0..<8] \<rparr>)"
      by (simp only: Particle_draws fst_conv snd_conv)
  qed
  have len: "length (particles (resize w h s)) = 12" unfolding ps by simp
  have r: "random (resize w h s) = (fst (random s), snd (random s) + 216)"
    by (simp add: resize_globals n)
  have ev: "(\<forall>e \<in> set es. \<not> is_resize e)
        \<longrightarrow> length (particles (fold handle es (resize w h s))) = 12"
    using handle_all_length [of es "resize w h s"] len by simp
  from len n ps each r ev resize_globals(2,3) [of w h s] show ?thesis by simp
qed


theorem resize_particle_count_witness:
  "\<not> is_resize (MouseMove 1 2) \<and> \<not> is_resize (Scroll 5) \<and> \<not> is_resize (AnimationFrame (\<lambda>k. 0))
   \<and> \<not> is_resize MouseOut
   \<and> length (particles (fold handle [MouseMove 1 2, Scroll 5, AnimationFrame (\<lambda>k. 0), MouseOut]
         (resize 800 600 sample_globals))) = 12
   \<and> length (particles (resize 800 600 sample_globals)) = 12
   \<and> (3::nat) < 12
   \<and> radius (particles (resize 800 600 sample_globals) ! 3) = 500
   \<and> particle.x (particles (resize 800 600 sample_globals) ! 3) = 400
   \<and> color (particles (resize 800 600 sample_globals) ! 3) = Some ''rgba(240, 240, 255, 0.8)''
   \<and> random (resize 800 600 sample_globals) = (\<lambda>k. 1 / 2, 216)"
proof -
  note t = resize_particle_count [of 800 600 sample_globals
      "[MouseMove 1 2, Scroll 5, AnimationFrame (\<lambda>k. 0), MouseOut]"]
  from t have "\<forall>k < 12. particles (resize 800 600 sample_globals) ! k =
         (let d = (\<lambda>j. fst (random sample_globals) (snd (random sample_globals) + 18 * k + j)) in
          \<lparr> particle.x = d 16 * 800, particle.y = d 17 * 600,
            vx = (d 2 - 1 / 2) * (8 / 10), vy = (d 3 - 1 / 2) * (8 / 10),
            targetSize = 400 + d 4 * 200, radius = 400 + d 4 * 200,
            color = js_index colors \<lfloor>d 5 * 5\<rfloor>,
            angle = d 6 * pi * 2, spin = (d 7 - 1 / 2) * (5 / 1000),
            offsets = map (\<lambda>j. d (8 + j) * 2 * pi) [0..<8] \<rparr>)"
    by blast
  from this [rule_format, of 3]
  have p3: "radius (particles (resize 800 600 sample_globals) ! 3) = 500"
    "particle.x (particles (resize 800 600 sample_globals) ! 3) = 400"
    "color (particles (resize 800 600 sample_globals) ! 3) = Some ''rgba(240, 240, 255, 0.8)''"
    by (simp_all add: Let_def sample_globals_def js_index_def colors_def)
  from t have rest: "length (particles (fold handle [MouseMove 1 2, Scroll 5, AnimationFrame (\<lambda>k. 0), MouseOut]
         (resize 800 600 sample_globals))) = 12"
    "length (particles (resize 800 600 sample_globals)) = 12"
    "random (resize 800 600 sample_globals) = (\<lambda>k. 1 / 2, 216)"
    by (simp_all add: sample_globals_def)
  from p3 rest show ?thesis by simp
qed

subsection \<open>What the constructor builds from draws in the unit interval\<close>

lemma Particle_fields:
  assumes "\<forall>k. 0 \<le> fst g k \<and> fst g k < 1"
  shows "400 \<le> radius (fst (Particle w h g))" "radius (fst (Particle w h g)) < 600"
    "length (offsets (fst (Particle w h g))) = 8"
    "color (fst (Particle w h g)) \<in> Some ` set colors"
proof -
  let ?u5 = "fst g (snd g + 4)" and ?u6 = "fst g (snd g + 5)"
  have r: "radius (fst (Particle w h g)) = 400 + ?u5 * 200"
    by (simp add: Particle_def reset_def split_def Let_def config_def eval_nat_numeral)
  from assms have "0 \<le> ?u5" "?u5 < 1" by simp_all
  then show "400 \<le> radius (fst (Particle w h g))" "radius (fst (Particle w h g)) < 600"
    unfolding r by simp_all
  show "length (offsets (fst (Particle w h g))) = 8"
    by (simp add: Particle_def reset_def split_def Let_def fill_offsets_length)
  have len: "length colors = 5" by (simp add: colors_def)
  have c: "color (fst (Particle w h g)) = js_index colors \<lfloor>?u6 * 5\<rfloor>"
    by (simp add: Particle_def reset_def split_def Let_def len eval_nat_numeral)
  from assms have "0 \<le> ?u6" "?u6 < 1" by simp_all
  then have fl: "0 \<le> \<lfloor>?u6 * 5\<rfloor>" "\<lfloor>?u6 * 5\<rfloor> < 5"
    by (simp_all add: floor_less_iff)
  then have "nat \<lfloor>?u6 * 5\<rfloor> < length colors" unfolding len by linarith
  then have "colors ! nat \<lfloor>?u6 * 5\<rfloor> \<in> set colors" by (rule nth_mem)
  with fl show "color (fst (Particle w h g)) \<in> Some ` set colors"
    unfolding c js_index_def by (simp add: len)
qed

lemma resize_fields:
  assumes "\<forall>k. 0 \<le> fst (random s) k \<and> fst (random s) k < 1"
    and "p \<in> set (particles (resize w h s))"
  shows "400 \<le> radius p" "radius p < 600" "length (offsets p) = 8"
proof -
  from assms(2) obtain k
    where p: "p = fst (Particle w h (fst (random s), snd (random s) + 18 * k))"
    unfolding resize_particles by auto
  from assms(1) have "\<forall>j. 0 \<le> fst (fst (random s), snd (random s) + 18 * k) j
      \<and> fst (fst (random s), snd (random s) + 18 * k) j < 1"
    by simp
  from Particle_fields(1-3) [OF this, of w h]
  show "400 \<le> radius p" "radius p < 600" "length (offsets p) = 8"
    unfolding p by simp_all
qed

subsection \<open>The blob polygon\<close>

lemma draw_loop_step:
  "i \<le> 10 \<Longrightarrow> length (offsets p) = 8 \<Longrightarrow>
   draw_loop p time i =
     (if i = 0 then MoveTo (Some (fst (blob_vertex (radius p) (offsets p) time i)))
                          (Some (snd (blob_vertex (radius p) (offsets p) time i)))
      else LineTo (Some (fst (blob_vertex (radius p) (offsets p) time i)))
                  (Some (snd (blob_vertex (radius p) (offsets p) time i))))
     # draw_loop p time (Suc i)"
  by (subst draw_loop.simps) (simp add: Let_def js_index_def blob_vertex_def algebra_simps)

lemma draw_loop_stop: "\<not> i \<le> 10 \<Longrightarrow> draw_loop p time i = []"
  by (subst draw_loop.simps) simp

lemma draw_loop_eq:
  assumes "length (offsets p) = 8"
  shows "i \<le> 11 \<Longrightarrow> 11 - i = n \<Longrightarrow>
     draw_loop p time i =
       map (\<lambda>k. (if k = 0 then MoveTo else LineTo)
                   (Some (fst (blob_vertex (radius p) (offsets p) time k)))
                   (Some (snd (blob_vertex (radius p) (offsets p) time k)))) [i..<11]"
proof (induction n arbitrary: i)
  case 0
  then have "i = 11" by simp
  then show ?case by (simp add: draw_loop_stop)
next
  case (Suc n)
  then have i: "i \<le> 10" "Suc i \<le> 11" "11 - Suc i = n" by simp_all
  have up: "[i..<11] = i # [Suc i..<11]" using i(1) by (simp add: upt_conv_Cons)
  show ?case
    unfolding draw_loop_step [OF i(1) assms] Suc.IH [OF i(2,3)] up by simp
qed

text \<open>
  Claim C8. For a particle with its 8 morph offsets, \<open>draw\<close> traces a closed polygon of
  11 points: after \<open>beginPath\<close> it moves to the vertex of index 0, draws a line to each of
  the vertices of index 1 to 10 and closes the path. The vertex of index \<open>i\<close> is at angle
  \<open>2 * pi * i / 10\<close> and at the particle radius times
  \<open>1 + 0.1 * sin (2 * theta + time + offsets[i mod 8]) + 0.1 * cos (3 * theta - time)\<close>,
  with \<open>time\<close> the clock in seconds.
\<close>

theorem draw_polygon:
  assumes "length (offsets p) = 8"
  shows "draw p now =
      [Save, Translate (particle.x p) (particle.y p), Rotate (angle p), BeginPath]
      @ map (\<lambda>i. (if i = 0 then MoveTo else LineTo)
                    (Some (fst (blob_vertex (radius p) (offsets p) (now * (1 / 1000)) i)))
                    (Some (snd (blob_vertex (radius p) (offsets p) (now * (1 / 1000)) i))))
            [0..<11]
      @ [ClosePath, FillStyle (color p), Fill, Restore]"
  unfolding draw_def draw_loop_eq [OF assms le0 refl, simplified] by simp

theorem draw_polygon_witness:
  "length (offsets sample_particle) = 8
   \<and> length (draw sample_particle 0) = 19
   \<and> draw sample_particle 0 ! 4 = MoveTo (Some 550) (Some 0)
   \<and> draw sample_particle 0 ! 9
       = LineTo (Some (500 * (1 + (1 / 10) * sin (2 * pi + 5) + (1 / 10) * cos (3 * pi)) * cos pi))
                (Some (500 * (1 + (1 / 10) * sin (2 * pi + 5) + (1 / 10) * cos (3 * pi)) * sin pi))
   \<and> draw sample_particle 0 ! 15 = ClosePath"
  using draw_polygon [of sample_particle 0]
  by (simp add: sample_particle_def blob_vertex_def Let_def upt_conv_Cons)

subsection \<open>The repel force\<close>

lemma sqrt_sum_factor:
  fixes a b :: real
  assumes "a \<noteq> 0"
  shows "sqrt (a * a + b * b) = \<bar>a\<bar> * sqrt (1 + (b / a)\<^sup>2)"
proof -
  have "a * a + b * b = a\<^sup>2 * (1 + (b / a)\<^sup>2)"
    using assms by (simp add: power2_eq_square field_simps)
  then show ?thesis by (simp add: real_sqrt_mult)
qed

lemma arctan_polar:
  fixes a b :: real
  assumes "a \<noteq> 0"
  shows "sqrt (a * a + b * b) * cos (arctan (b / a)) = \<bar>a\<bar>"
    and "sqrt (a * a + b * b) * sin (arctan (b / a)) = \<bar>a\<bar> * (b / a)"
proof -
  have pos: "0 < 1 + (b / a)\<^sup>2" by (simp add: add_pos_nonneg)
  then have nz: "sqrt (1 + (b / a)\<^sup>2) \<noteq> 0" by simp
  show "sqrt (a * a + b * b) * cos (arctan (b / a)) = \<bar>a\<bar>"
    unfolding sqrt_sum_factor [OF assms] cos_arctan using nz by simp
  show "sqrt (a * a + b * b) * sin (arctan (b / a)) = \<bar>a\<bar> * (b / a)"
    unfolding sqrt_sum_factor [OF assms] sin_arctan using nz by simp
qed

lemma atan2_cos: "sqrt (a * a + b * b) * cos (Math_atan2 b a) = a"
proof -
  consider "0 < a" | "a < 0" | "a = 0" by linarith
  then show ?thesis
  proof cases
    case 1
    then show ?thesis using arctan_polar(1) [of a b] by (simp add: Math_atan2_def)
  next
    case 2
    then show ?thesis using arctan_polar(1) [of a b] by (simp add: Math_atan2_def)
  next
    case 3
    then show ?thesis by (simp add: Math_atan2_def)
  qed
qed

lemma atan2_sin: "sqrt (a * a + b * b) * sin (Math_atan2 b a) = b"
proof -
  consider "0 < a" | "a < 0" | "a = 0" by linarith
  then show ?thesis
  proof cases
    case 1
    then show ?thesis using arctan_polar(2) [of a b] by (simp add: Math_atan2_def)
  next
    case 2
    then show ?thesis using arctan_polar(2) [of a b] by (simp add: Math_atan2_def)
  next
    case 3
    then show ?thesis by (simp add: Math_atan2_def)
  qed
qed

lemma sqrt_sample: "sqrt 90000 = 300"
proof -
  have "sqrt 90000 = sqrt (300\<^sup>2)" by simp
  also have "\<dots> = 300" by (simp only: real_sqrt_abs)
  finally show ?thesis .
qed

lemma mouse_distance_nonneg: "0 \<le> mouse_distance m p"
  by (simp add: mouse_distance_def Let_def)

lemma repel_polar:
  "mouse_distance m p * cos (repel_angle m p) = to_number (mouse_t.x m) - particle.x p"
  "mouse_distance m p * sin (repel_angle m p) = to_number (mouse_t.y m) - particle.y p"
  by (simp_all add: mouse_distance_def repel_angle_def Let_def atan2_cos atan2_sin)

lemma scaled_unit:
  fixes c s m :: real
  assumes "c\<^sup>2 + s\<^sup>2 = 1" "0 \<le> m"
  shows "sqrt ((c * m) * (c * m) + (s * m) * (s * m)) = m"
proof -
  have "(c * m) * (c * m) + (s * m) * (s * m) = m\<^sup>2 * (c\<^sup>2 + s\<^sup>2)"
    by (simp add: power2_eq_square algebra_simps)
  also have "\<dots> = m\<^sup>2" by (simp add: assms(1))
  finally show ?thesis using assms(2) by simp
qed

lemma repel_force_bounds:
  assumes "mouse_distance m p < mouseRepelDist config"
  shows "0 < repel_force m p" "repel_force m p \<le> 1"
  using assms mouse_distance_nonneg [of m p] by (simp_all add: repel_force_def config_def)

lemma repel_block_law:
  assumes "mouse_t.x (mouse s) \<noteq> None"
    and "mouse_distance (mouse s) p < mouseRepelDist config"
  shows "let d = mouse_distance (mouse s) p;
             f = repel_force (mouse s) p;
             q = mouse_interaction s p;
             ax = vx q - vx p;
             ay = vy q - vy p
         in f = (600 - d) / 600 \<and> 0 \<le> f \<and> f \<le> 1
          \<and> mouseRepelForce config = 2 / 100
          \<and> sqrt (ax * ax + ay * ay) = f * (2 / 100)
          \<and> d * ax = f * (2 / 100) * (particle.x p - to_number (mouse_t.x (mouse s)))
          \<and> d * ay = f * (2 / 100) * (particle.y p - to_number (mouse_t.y (mouse s)))"
proof -
  let ?m = "mouse s"
  let ?d = "mouse_distance ?m p" and ?f = "repel_force ?m p" and ?t = "repel_angle ?m p"
  have f: "0 < ?f" "?f \<le> 1" using repel_force_bounds [OF assms(2)] by simp_all
  have k: "mouseRepelForce config = 2 / 100" by (simp add: config_def)
  have ax: "vx (mouse_interaction s p) - vx p = - (cos ?t * ?f * (2 / 100))"
    and ay: "vy (mouse_interaction s p) - vy p = - (sin ?t * ?f * (2 / 100))"
    using assms by (simp_all add: mouse_interaction_locals k)
  have mag: "sqrt ((cos ?t * ?f * (2 / 100)) * (cos ?t * ?f * (2 / 100))
          + (sin ?t * ?f * (2 / 100)) * (sin ?t * ?f * (2 / 100))) = ?f * (2 / 100)"
    using scaled_unit [of "cos ?t" "sin ?t" "?f * (2 / 100)"] f(1) by (simp add: mult.assoc)
  have mag': "sqrt ((- (cos ?t * ?f * (2 / 100))) * (- (cos ?t * ?f * (2 / 100)))
          + (- (sin ?t * ?f * (2 / 100))) * (- (sin ?t * ?f * (2 / 100)))) = ?f * (2 / 100)"
    using mag by simp
  have flip: "- ((a - b) * c) = c * (b - a)" for a b c :: real
    by (simp add: algebra_simps)
  have dx: "?d * - (cos ?t * ?f * (2 / 100))
      = ?f * (2 / 100) * (particle.x p - to_number (mouse_t.x ?m))"
  proof -
    have "?d * - (cos ?t * ?f * (2 / 100)) = - ((?d * cos ?t) * (?f * (2 / 100)))" by simp
    also have "\<dots> = - ((to_number (mouse_t.x ?m) - particle.x p) * (?f * (2 / 100)))"
      by (simp only: repel_polar)
    also have "\<dots> = ?f * (2 / 100) * (particle.x p - to_number (mouse_t.x ?m))"
      by (rule flip)
    finally show ?thesis .
  qed
  have dy: "?d * - (sin ?t * ?f * (2 / 100))
      = ?f * (2 / 100) * (particle.y p - to_number (mouse_t.y ?m))"
  proof -
    have "?d * - (sin ?t * ?f * (2 / 100)) = - ((?d * sin ?t) * (?f * (2 / 100)))" by simp
    also have "\<dots> = - ((to_number (mouse_t.y ?m) - particle.y p) * (?f * (2 / 100)))"
      by (simp only: repel_polar)
    also have "\<dots> = ?f * (2 / 100) * (particle.y p - to_number (mouse_t.y ?m))"
      by (rule flip)
    finally show ?thesis .
  qed
  have ff: "?f = (600 - ?d) / 600" by (simp add: repel_force_def config_def)
  have f0: "0 \<le> ?f" using f(1) by simp
  show ?thesis
    unfolding Let_def ax ay
    by (intro conjI ff f0 f(2) k mag' dx dy)
qed

lemma mouse_interaction_checked_total:
  "mouse_interaction_checked s p = Some (mouse_interaction s p)"
proof -
  have sq: "Math_sqrt (a * a + b * b) = Some (sqrt (a * a + b * b))" for a b :: real
    by (simp add: Math_sqrt_def not_less)
  have dv: "js_divide a (mouseRepelDist config) = Some (a / mouseRepelDist config)" for a
    by (simp add: js_divide_def config_def)
  show ?thesis
    by (simp add: mouse_interaction_checked_def mouse_interaction_def Let_def sq dv)
qed

lemma mouse_interaction_delta:
  "mouse_interaction s q
     = q\<lparr> vx := vx q + (vx (mouse_interaction s q) - vx q),
          vy := vy q + (vy (mouse_interaction s q) - vy q) \<rparr>"
  by (rule particle.equality) simp_all

lemma update_through_block:
  "update s p g =
     min_speed (damping (mouse_interaction s (boundaries s (basic_motion (scroll_interaction s p))))) g"
  by (simp add: update_def)

text \<open>
  Claim C2. For a particle in repel range in an \<open>update\<close> (pointer known, distance \<open>d\<close>
  from the wrapped position to the pointer below 600), the change of the velocity made by
  the mouse block has magnitude \<open>f * 0.02\<close> with \<open>f = (600 - d) / 600\<close>, a factor between 0
  and 1, and it points away from the pointer: \<open>d\<close> times the change is \<open>f * 0.02\<close> times
  the vector from the pointer to the particle. \<open>update\<close> hands the velocity with this
  change added to the damping and the minimum-speed steps, so a component that stays at or
  above the floor ends as the sum times 0.98.
\<close>

theorem repel_force_law:
  assumes "mouse_t.x (mouse s) \<noteq> None"
    and "mouse_distance (mouse s) (boundaries s (basic_motion (scroll_interaction s p)))
           < mouseRepelDist config"
  shows "let q = boundaries s (basic_motion (scroll_interaction s p));
             d = mouse_distance (mouse s) q;
             f = repel_force (mouse s) q;
             ax = vx (mouse_interaction s q) - vx q;
             ay = vy (mouse_interaction s q) - vy q;
             p' = fst (update s p g)
         in f = (600 - d) / 600 \<and> 0 \<le> f \<and> f \<le> 1
          \<and> mouseRepelForce config = 2 / 100
          \<and> sqrt (ax * ax + ay * ay) = f * (2 / 100)
          \<and> d * ax = f * (2 / 100) * (particle.x q - to_number (mouse_t.x (mouse s)))
          \<and> d * ay = f * (2 / 100) * (particle.y q - to_number (mouse_t.y (mouse s)))
          \<and> update s p g = min_speed (damping (q\<lparr> vx := vx q + ax, vy := vy q + ay \<rparr>)) g
          \<and> (2 / 10 \<le> \<bar>(vx q + ax) * (98 / 100)\<bar> \<longrightarrow> vx p' = (vx q + ax) * (98 / 100))
          \<and> (2 / 10 \<le> \<bar>(vy q + ay) * (98 / 100)\<bar> \<longrightarrow> vy p' = (vy q + ay) * (98 / 100))"
proof -
  let ?q = "boundaries s (basic_motion (scroll_interaction s p))"
  let ?ax = "vx (mouse_interaction s ?q) - vx ?q" and ?ay = "vy (mouse_interaction s ?q) - vy ?q"
  note law = repel_block_law [OF assms, unfolded Let_def]
  have u: "update s p g = min_speed (damping (?q\<lparr> vx := vx ?q + ?ax, vy := vy ?q + ?ay \<rparr>)) g"
    by (subst update_through_block, subst mouse_interaction_delta) (rule refl)
  have fx: "2 / 10 \<le> \<bar>(vx ?q + ?ax) * (98 / 100)\<bar>
      \<longrightarrow> vx (fst (update s p g)) = (vx ?q + ?ax) * (98 / 100)"
    unfolding u min_speed_vx by simp
  have fy: "2 / 10 \<le> \<bar>(vy ?q + ?ay) * (98 / 100)\<bar>
      \<longrightarrow> vy (fst (update s p g)) = (vy ?q + ?ay) * (98 / 100)"
    unfolding u min_speed_vy by simp
  show ?thesis
    unfolding Let_def using law u fx fy by blast
qed

theorem repel_force_law_witness:
  "mouse_t.x (mouse sample_globals) \<noteq> None
   \<and> boundaries sample_globals (basic_motion (scroll_interaction sample_globals
         (sample_particle\<lparr> particle.x := 698 \<rparr>)))
       = sample_particle\<lparr> particle.x := 700, particle.y := 51, vy := 1, angle := 1 / 1000 \<rparr>
   \<and> mouse_distance (mouse sample_globals)
         (sample_particle\<lparr> particle.x := 700, particle.y := 51, vy := 1, angle := 1 / 1000 \<rparr>) = 300
   \<and> 300 < mouseRepelDist config
   \<and> update sample_globals (sample_particle\<lparr> particle.x := 698 \<rparr>) (\<lambda>k. 1 / 2, 0)
       = (sample_particle\<lparr> particle.x := 700, particle.y := 51, angle := 1 / 1000,
                            vx := 19502 / 10000, vy := 98 / 100 \<rparr>, (\<lambda>k. 1 / 2, 0))"
proof -
  let ?p = "sample_particle\<lparr> particle.x := 698 \<rparr>"
  let ?q = "sample_particle\<lparr> particle.x := 700, particle.y := 51, vy := 1, angle := 1 / 1000 \<rparr>"
  have q: "boundaries sample_globals (basic_motion (scroll_interaction sample_globals ?p)) = ?q"
    by (simp add: boundaries_def basic_motion_def scroll_interaction_def Let_def
        sample_globals_def sample_particle_def config_def)
  have d: "mouse_distance (mouse sample_globals) ?q = 300"
    by (simp add: mouse_distance_def to_number_def sample_globals_def sample_particle_def sqrt_sample)
  have m: "mouse_t.x (mouse sample_globals) = Some 1000" "mouse_t.y (mouse sample_globals) = Some 51"
    by (simp_all add: sample_globals_def)
  have r: "mouseRepelDist config = 600" by (simp add: config_def)
  have f: "repel_force (mouse sample_globals) ?q = 1 / 2"
    by (simp add: repel_force_def d r)
  have v: "particle.x ?q = 700" "particle.y ?q = 51" "vx ?q = 2" "vy ?q = 1"
    by (simp_all add: sample_particle_def)
  have h1: "mouse_t.x (mouse sample_globals) \<noteq> None" by (simp add: m)
  have h2: "mouse_distance (mouse sample_globals)
      (boundaries sample_globals (basic_motion (scroll_interaction sample_globals ?p)))
        < mouseRepelDist config"
    unfolding q d r by simp
  note t = repel_force_law [OF h1 h2, of "(\<lambda>k. 1 / 2, 0)", unfolded Let_def q d f m v]
  from t have ax: "vx (mouse_interaction sample_globals ?q) - 2 = - (1 / 100)"
    and ay: "vy (mouse_interaction sample_globals ?q) - 1 = 0"
    by (simp_all add: to_number_def)
  from t have "update sample_globals ?p (\<lambda>k. 1 / 2, 0)
      = min_speed (damping (?q\<lparr> vx := 2 + (vx (mouse_interaction sample_globals ?q) - 2),
                                 vy := 1 + (vy (mouse_interaction sample_globals ?q) - 1) \<rparr>))
          (\<lambda>k. 1 / 2, 0)"
    by blast
  then have u: "update sample_globals ?p (\<lambda>k. 1 / 2, 0)
       = (sample_particle\<lparr> particle.x := 700, particle.y := 51, angle := 1 / 1000,
                            vx := 19502 / 10000, vy := 98 / 100 \<rparr>, (\<lambda>k. 1 / 2, 0))"
    unfolding ax ay by (simp add: min_speed_def damping_def sample_particle_def split_def Let_def)
  from h1 q d r u show ?thesis by simp
qed

lemma repel_block_at_pointer:
  assumes "mouse_t.x (mouse s) = Some (particle.x q)"
    and "mouse_t.y (mouse s) = Some (particle.y q)"
  shows "mouse_distance (mouse s) q = 0" "repel_force (mouse s) q = 1"
    "repel_angle (mouse s) q = Math_atan2 0 0"
    "mouse_interaction s q = q\<lparr> vx := vx q - 2 / 100, vy := vy q \<rparr>"
proof -
  show d: "mouse_distance (mouse s) q = 0"
    using assms by (simp add: mouse_distance_def to_number_def)
  show f: "repel_force (mouse s) q = 1"
    by (simp add: repel_force_def d config_def)
  show a: "repel_angle (mouse s) q = Math_atan2 0 0"
    using assms by (simp add: repel_angle_def to_number_def)
  have z: "Math_atan2 0 0 = 0" by (simp add: Math_atan2_def)
  have k: "mouseRepelDist config = 600" "mouseRepelForce config = 2 / 100"
    by (simp_all add: config_def)
  show "mouse_interaction s q = q\<lparr> vx := vx q - 2 / 100, vy := vy q \<rparr>"
    using assms by (simp add: mouse_interaction_locals d f a z k)
qed

text \<open>
  Claim C10. For a particle that an \<open>update\<close> has moved exactly onto the pointer the
  repel computation is defined and finite: the distance is 0, the factor is exactly 1,
  \<open>atan2(0, 0)\<close> is 0, and the force, of magnitude 0.02, is applied along the negative x
  axis (\<open>vx\<close> decreases by 0.02 and \<open>vy\<close> is unchanged) before damping and minimum
  speed. For any pointer and any particle, the block with its partial operations checked
  returns a value, the one of the block itself: no division by zero and no square root of
  a negative number arises in it. The only divisor of the block is the constant 600.
\<close>

theorem repel_at_pointer:
  assumes "mouse_t.x (mouse s)
      = Some (particle.x (boundaries s (basic_motion (scroll_interaction s p))))"
    and "mouse_t.y (mouse s)
      = Some (particle.y (boundaries s (basic_motion (scroll_interaction s p))))"
  shows "let q = boundaries s (basic_motion (scroll_interaction s p)) in
           mouse_distance (mouse s) q = 0
         \<and> repel_force (mouse s) q = 1
         \<and> repel_angle (mouse s) q = Math_atan2 0 0 \<and> Math_atan2 0 0 = 0
         \<and> mouse_interaction s q = q\<lparr> vx := vx q - 2 / 100, vy := vy q \<rparr>
         \<and> vx (mouse_interaction s q) - vx q = - (2 / 100)
         \<and> vy (mouse_interaction s q) - vy q = 0
         \<and> mouse_interaction_checked s q = Some (q\<lparr> vx := vx q - 2 / 100, vy := vy q \<rparr>)
         \<and> update s p g = min_speed (damping (q\<lparr> vx := vx q - 2 / 100, vy := vy q \<rparr>)) g
         \<and> mouse_interaction_checked s' p' = Some (mouse_interaction s' p')
         \<and> mouseRepelDist config \<noteq> 0
         \<and> 0 \<le> mouse_distance m q'"
proof -
  let ?q = "boundaries s (basic_motion (scroll_interaction s p))"
  note b = repel_block_at_pointer [OF assms]
  have z: "Math_atan2 0 0 = 0" by (simp add: Math_atan2_def)
  have c: "mouse_interaction_checked s ?q = Some (?q\<lparr> vx := vx ?q - 2 / 100, vy := vy ?q \<rparr>)"
    by (simp only: mouse_interaction_checked_total b(4))
  have u: "update s p g = min_speed (damping (?q\<lparr> vx := vx ?q - 2 / 100, vy := vy ?q \<rparr>)) g"
    by (simp only: update_through_block b(4))
  have dv: "vx (mouse_interaction s ?q) - vx ?q = - (2 / 100)"
    "vy (mouse_interaction s ?q) - vy ?q = 0"
    unfolding b(4) by simp_all
  have k: "mouseRepelDist config \<noteq> 0" by (simp add: config_def)
  show ?thesis
    unfolding Let_def
    using b z c u dv k mouse_interaction_checked_total [of s' p'] mouse_distance_nonneg [of m q']
    by blast
qed

theorem repel_at_pointer_witness:
  "boundaries (sample_globals\<lparr> mouse := \<lparr> mouse_t.x = Some 700, mouse_t.y = Some 51 \<rparr> \<rparr>)
       (basic_motion (scroll_interaction
          (sample_globals\<lparr> mouse := \<lparr> mouse_t.x = Some 700, mouse_t.y = Some 51 \<rparr> \<rparr>)
          (sample_particle\<lparr> particle.x := 698 \<rparr>)))
     = sample_particle\<lparr> particle.x := 700, particle.y := 51, vy := 1, angle := 1 / 1000 \<rparr>
   \<and> mouse_t.x (mouse (sample_globals\<lparr> mouse := \<lparr> mouse_t.x = Some 700, mouse_t.y = Some 51 \<rparr> \<rparr>))
       = Some 700
   \<and> mouse_t.y (mouse (sample_globals\<lparr> mouse := \<lparr> mouse_t.x = Some 700, mouse_t.y = Some 51 \<rparr> \<rparr>))
       = Some 51
   \<and> update (sample_globals\<lparr> mouse := \<lparr> mouse_t.x = Some 700, mouse_t.y = Some 51 \<rparr> \<rparr>)
         (sample_particle\<lparr> particle.x := 698 \<rparr>) (\<lambda>k. 1 / 2, 0)
       = (sample_particle\<lparr> particle.x := 700, particle.y := 51, angle := 1 / 1000,
                            vx := 19404 / 10000, vy := 98 / 100 \<rparr>, (\<lambda>k. 1 / 2, 0))"
proof -
  let ?s = "sample_globals\<lparr> mouse := \<lparr> mouse_t.x = Some 700, mouse_t.y = Some 51 \<rparr> \<rparr>"
  let ?p = "sample_particle\<lparr> particle.x := 698 \<rparr>"
  let ?q = "sample_particle\<lparr> particle.x := 700, particle.y := 51, vy := 1, angle := 1 / 1000 \<rparr>"
  have q: "boundaries ?s (basic_motion (scroll_interaction ?s ?p)) = ?q"
    by (simp add: boundaries_def basic_motion_def scroll_interaction_def Let_def
        sample_globals_def sample_particle_def config_def)
  have m: "mouse_t.x (mouse ?s) = Some 700" "mouse_t.y (mouse ?s) = Some 51"
    by simp_all
  have v: "particle.x ?q = 700" "particle.y ?q = 51"
    by (simp_all add: sample_particle_def)
  have h1: "mouse_t.x (mouse ?s) = Some (particle.x (boundaries ?s (basic_motion (scroll_interaction ?s ?p))))"
    unfolding q m v by (rule refl)
  have h2: "mouse_t.y (mouse ?s) = Some (particle.y (boundaries ?s (basic_motion (scroll_interaction ?s ?p))))"
    unfolding q m v by (rule refl)
  note t = repel_at_pointer [OF h1 h2, of "(\<lambda>k. 1 / 2, 0)", unfolded Let_def q]
  from t have "update ?s ?p (\<lambda>k. 1 / 2, 0)
      = min_speed (damping (?q\<lparr> vx := vx ?q - 2 / 100, vy := vy ?q \<rparr>)) (\<lambda>k. 1 / 2, 0)"
    by blast
  then have u: "update ?s ?p (\<lambda>k. 1 / 2, 0)
       = (sample_particle\<lparr> particle.x := 700, particle.y := 51, angle := 1 / 1000,
                            vx := 19404 / 10000, vy := 98 / 100 \<rparr>, (\<lambda>k. 1 / 2, 0))"
    by (simp add: min_speed_def damping_def sample_particle_def split_def Let_def)
  from q m u show ?thesis by simp
qed

subsection \<open>The contact form\<close>

lemmas encode_defs = js_def uriUnreserved_def hex_digit_def percent_octet_def utf8_octets_def
  escape_code_point_def is_leading_surrogate_def is_trailing_surrogate_def prepend_def

lemma encode_subject: "encodeURIComponent (js ''Hi'') = Inr (js ''Hi'')"
  by (simp add: encode_defs)

lemma encode_body:
  "encodeURIComponent (bodyRaw (js ''A'') (js ''a@b.com'') (js ''Hello''))
     = Inr (js ''Name%3A%20A%0AEmail%3A%20a%40b.com%0A%0AHello'')"
  by (simp add: bodyRaw_def encode_defs)

lemma lines_body:
  "split_on 0x0A (bodyRaw (js ''A'') (js ''a@b.com'') (js ''Hello''))
     = [js ''Name: A'', js ''Email: a@b.com'', [], js ''Hello'']"
  by (simp add: bodyRaw_def js_def)

text \<open>
  Claim C7. Submitting the contact form with name \<open>A\<close>, email \<open>a@b.com\<close>, subject \<open>Hi\<close>
  and message \<open>Hello\<close> prevents the default submission and sets the location to a
  \<open>mailto:\<close> link to the fixed recipient whose subject is the encoding of \<open>Hi\<close> and whose
  body is the encoding of the text with the lines \<open>Name: A\<close>, \<open>Email: a@b.com\<close>, an empty
  line and \<open>Hello\<close>; both are percent-encoded by \<open>encodeURIComponent\<close> (colon, space, line
  feed and at sign become \<open>%3A\<close>, \<open>%20\<close>, \<open>%0A\<close> and \<open>%40\<close>).
\<close>

theorem contact_form_submit:
  "on_submit sample_form pg =
     (None, pg\<lparr> defaultPrevented := True,
                 href := js ''mailto:goodteachtech@gmail.com?subject=Hi&body=Name%3A%20A%0AEmail%3A%20a%40b.com%0A%0AHello'' \<rparr>)
   \<and> href (snd (on_submit sample_form pg))
       = js ''mailto:goodteachtech@gmail.com?subject='' @ js ''Hi'' @ js ''&body=''
         @ js ''Name%3A%20A%0AEmail%3A%20a%40b.com%0A%0AHello''
   \<and> encodeURIComponent (js ''Hi'') = Inr (js ''Hi'')
   \<and> encodeURIComponent (bodyRaw (js ''A'') (js ''a@b.com'') (js ''Hello''))
       = Inr (js ''Name%3A%20A%0AEmail%3A%20a%40b.com%0A%0AHello'')
   \<and> split_on 0x0A (bodyRaw (js ''A'') (js ''a@b.com'') (js ''Hello''))
       = [js ''Name: A'', js ''Email: a@b.com'', [], js ''Hello'']"
proof -
  have v: "value_of sample_form ''name'' = Inr (js ''A'')"
    "value_of sample_form ''email'' = Inr (js ''a@b.com'')"
    "value_of sample_form ''subject'' = Inr (js ''Hi'')"
    "value_of sample_form ''message'' = Inr (js ''Hello'')"
    by (simp_all add: value_of_def sample_form_def)
  have h: "js ''mailto:goodteachtech@gmail.com?subject='' @ js ''Hi'' @ js ''&body=''
         @ js ''Name%3A%20A%0AEmail%3A%20a%40b.com%0A%0AHello''
       = js ''mailto:goodteachtech@gmail.com?subject=Hi&body=Name%3A%20A%0AEmail%3A%20a%40b.com%0A%0AHello''"
    by (simp add: js_def)
  have s: "on_submit sample_form pg =
     (None, pg\<lparr> defaultPrevented := True,
                 href := js ''mailto:goodteachtech@gmail.com?subject=Hi&body=Name%3A%20A%0AEmail%3A%20a%40b.com%0A%0AHello'' \<rparr>)"
    by (simp add: on_submit_def Let_def v encode_subject encode_body h [symmetric])
  show ?thesis
    unfolding s by (simp add: encode_subject encode_body lines_body h [symmetric])
qed

end
